theory Spec2Isabelle
  imports Complex_Main "HOL-Library.Char_ord" "HOL-Library.List_Lexorder"
    "HOL-Library.Product_Lexorder" "HOL-Library.Multiset"
begin

section \<open>Numbers, errors and data frames\<close>

text \<open>
  The scripts compute with pandas columns of float64 and int64 cells. A finite cell is
  modelled by a \<^typ>\<open>real\<close>. The sums, the clip and the division of the minmax branch
  and of the enhanced scorecard are modelled in exact arithmetic; there the special
  values appear where the code can produce them without rounding, which is the division
  by a zero denominator: pandas divides a column by zero without raising and gives
  \<open>inf\<close>, \<open>-inf\<close> or \<open>NaN\<close>. The logistic branch is modelled in float64
  arithmetic, every operation rounded to the nearest float64 with ties to even, since
  rounding and overflow decide which values that branch can take.

  The exceptions of the scripts are values of \<open>error\<close>; a function that can raise
  returns \<open>error + 'a\<close>, with \<open>Inl\<close> the exception.
\<close>

datatype error = ValueError | KeyError

datatype fval = Fin real | PosInf | NegInf | NaN

definition fdiv :: "real \<Rightarrow> real \<Rightarrow> fval" where
  \<comment> \<open>\<open>series / d\<close>, cell by cell\<close>
  "fdiv x d =
     (if d \<noteq> 0 then Fin (x / d)
      else if 0 < x then PosInf
      else if x < 0 then NegInf
      else NaN)"

definition clip :: "fval \<Rightarrow> real \<Rightarrow> real \<Rightarrow> fval" where
  \<comment> \<open>\<open>series.clip(lower, upper)\<close>: a NaN cell stays NaN\<close>
  "clip v lower upper =
     (case v of
        Fin x \<Rightarrow> Fin (min (max x lower) upper)
      | PosInf \<Rightarrow> Fin upper
      | NegInf \<Rightarrow> Fin lower
      | NaN \<Rightarrow> NaN)"

definition ftimes :: "fval \<Rightarrow> real \<Rightarrow> fval" where
  \<comment> \<open>\<open>series * c\<close>\<close>
  "ftimes v c =
     (case v of
        Fin x \<Rightarrow> Fin (x * c)
      | PosInf \<Rightarrow> (if 0 < c then PosInf else if c < 0 then NegInf else NaN)
      | NegInf \<Rightarrow> (if 0 < c then NegInf else if c < 0 then PosInf else NaN)
      | NaN \<Rightarrow> NaN)"

definition fge :: "fval \<Rightarrow> real \<Rightarrow> bool" where
  \<comment> \<open>\<open>score >= c\<close>: every comparison with NaN is false\<close>
  "fge v c =
     (case v of Fin x \<Rightarrow> c \<le> x | PosInf \<Rightarrow> True | NegInf \<Rightarrow> False | NaN \<Rightarrow> False)"

text \<open>
  A data frame has named columns and rows of cells. \<open>df.get(ki, 0)\<close> is the column
  when the frame has a column of that name, and the scalar \<open>0\<close> otherwise.
\<close>

record dataframe =
  columns :: "string list"
  rows :: "(string \<Rightarrow> real) list"

definition df_get :: "string list \<Rightarrow> (string \<Rightarrow> real) \<Rightarrow> string \<Rightarrow> real \<Rightarrow> real" where
  "df_get cols r ki dflt = (if ki \<in> set cols then r ki else dflt)"

section \<open>Float64 arithmetic\<close>

text \<open>
  A float64 is a multiple of \<open>2^(e - 52)\<close> of magnitude below \<open>2^(e + 1)\<close>, where the
  exponent \<open>e\<close> ranges from \<open>-1022\<close> to \<open>1023\<close>; the numbers below \<open>2^(-1022)\<close>
  are the subnormal ones, multiples of \<open>2^(-1074)\<close>. \<open>round64\<close> rounds a real number
  to the nearest such multiple with no bound on the exponent from above, ties going to
  the even multiple (\<open>rne\<close>); \<open>fround\<close> then gives \<open>inf\<close> or \<open>-inf\<close> when
  the rounded magnitude is above the largest float64, \<open>max64\<close>. This is the rounding
  of IEEE 754 in its default mode. The zero of the model has no sign.
\<close>

definition rne :: "real \<Rightarrow> int" where
  "rne y = (let f = \<lfloor>y\<rfloor>; d = y - of_int f
            in if d < 1/2 then f else if 1/2 < d then f + 1 else if even f then f else f + 1)"

definition expo64 :: "real \<Rightarrow> int" where
  "expo64 x = max \<lfloor>log 2 \<bar>x\<bar>\<rfloor> (- 1022)"

definition ulp64 :: "real \<Rightarrow> real" where
  "ulp64 x = 2 powr (of_int (expo64 x) - 52)"

definition round64 :: "real \<Rightarrow> real" where
  "round64 x = (if x = 0 then 0 else of_int (rne (x / ulp64 x)) * ulp64 x)"

definition max64 :: real where
  "max64 = (2 ^ 53 - 1) * 2 ^ 971"

definition fround :: "real \<Rightarrow> fval" where
  "fround x =
     (let r = round64 x
      in if max64 < r then PosInf else if r < - max64 then NegInf else Fin r)"

text \<open>
  The operations of numpy on float64 cells: the exact result, rounded; the special values
  as IEEE 754 has them. \<open>np.exp\<close> is taken to be the correctly rounded exponential,
  with \<open>exp(inf) = inf\<close> and \<open>exp(-inf) = 0\<close>.
\<close>

fun fneg :: "fval \<Rightarrow> fval" where
  "fneg (Fin a) = Fin (- a)"
| "fneg PosInf = NegInf"
| "fneg NegInf = PosInf"
| "fneg NaN = NaN"

fun fadd64 :: "fval \<Rightarrow> fval \<Rightarrow> fval" where
  "fadd64 (Fin a) (Fin b) = fround (a + b)"
| "fadd64 NaN w = NaN"
| "fadd64 v NaN = NaN"
| "fadd64 PosInf NegInf = NaN"
| "fadd64 NegInf PosInf = NaN"
| "fadd64 PosInf w = PosInf"
| "fadd64 v PosInf = PosInf"
| "fadd64 NegInf w = NegInf"
| "fadd64 v NegInf = NegInf"

definition fsub64 :: "fval \<Rightarrow> fval \<Rightarrow> fval" where
  "fsub64 v w = fadd64 v (fneg w)"

fun fmul64 :: "fval \<Rightarrow> fval \<Rightarrow> fval" where
  "fmul64 (Fin a) (Fin b) = fround (a * b)"
| "fmul64 NaN w = NaN"
| "fmul64 v NaN = NaN"
| "fmul64 (Fin a) PosInf = (if a = 0 then NaN else if 0 < a then PosInf else NegInf)"
| "fmul64 (Fin a) NegInf = (if a = 0 then NaN else if 0 < a then NegInf else PosInf)"
| "fmul64 PosInf (Fin b) = (if b = 0 then NaN else if 0 < b then PosInf else NegInf)"
| "fmul64 NegInf (Fin b) = (if b = 0 then NaN else if 0 < b then NegInf else PosInf)"
| "fmul64 PosInf PosInf = PosInf"
| "fmul64 NegInf NegInf = PosInf"
| "fmul64 PosInf NegInf = NegInf"
| "fmul64 NegInf PosInf = NegInf"

fun fdiv64 :: "fval \<Rightarrow> fval \<Rightarrow> fval" where
  "fdiv64 (Fin a) (Fin b) =
     (if b \<noteq> 0 then fround (a / b)
      else if 0 < a then PosInf else if a < 0 then NegInf else NaN)"
| "fdiv64 NaN w = NaN"
| "fdiv64 v NaN = NaN"
| "fdiv64 (Fin a) PosInf = Fin 0"
| "fdiv64 (Fin a) NegInf = Fin 0"
| "fdiv64 PosInf (Fin b) = (if 0 \<le> b then PosInf else NegInf)"
| "fdiv64 NegInf (Fin b) = (if 0 \<le> b then NegInf else PosInf)"
| "fdiv64 v w = NaN"

fun fexp64 :: "fval \<Rightarrow> fval" where
  "fexp64 (Fin x) = fround (exp x)"
| "fexp64 PosInf = PosInf"
| "fexp64 NegInf = Fin 0"
| "fexp64 NaN = NaN"

text \<open>The order of the float64 values; \<open>NaN\<close> is comparable with nothing.\<close>

fun fle :: "fval \<Rightarrow> fval \<Rightarrow> bool" where
  "fle (Fin a) (Fin b) = (a \<le> b)"
| "fle (Fin a) PosInf = True"
| "fle NegInf (Fin b) = True"
| "fle NegInf NegInf = True"
| "fle NegInf PosInf = True"
| "fle PosInf PosInf = True"
| "fle v w = False"

section \<open>Score aggregation of the pipeline: \<open>compute_fraud_scores\<close>\<close>

datatype risk_band = Low_Risk | Medium_Risk | High_Risk

text \<open>
  The three constructors stand for the strings \<open>"Low Risk"\<close>, \<open>"Medium Risk"\<close> and
  \<open>"High Risk"\<close>. \<open>tier\<close> is the order of the risk tiers the specification speaks of.
\<close>

fun tier :: "risk_band \<Rightarrow> nat" where
  "tier Low_Risk = 0"
| "tier Medium_Risk = 1"
| "tier High_Risk = 2"

definition band :: "fval \<Rightarrow> risk_band" where
  \<comment> \<open>the same function in both scripts\<close>
  "band score =
     (if fge score 71 then High_Risk
      else if fge score 41 then Medium_Risk
      else Low_Risk)"

definition weighted_sum :: "string list \<Rightarrow> (string \<times> real) list \<Rightarrow> (string \<Rightarrow> real) \<Rightarrow> real" where
  \<comment> \<open>\<open>sum(df.get(ki, 0) * weight for ki, weight in ki_weights.items())\<close>: Python's
      \<open>sum\<close> starts from 0 and adds from the left\<close>
  "weighted_sum cols ki_weights r =
     foldl (\<lambda>acc (ki, weight). acc + df_get cols r ki 0 * weight) 0 ki_weights"

definition minmax_norm :: "real \<Rightarrow> real \<Rightarrow> real \<Rightarrow> fval" where
  \<comment> \<open>\<open>((raw - min_score) / (max_score - min_score)).clip(0, 1) * 100\<close>\<close>
  "minmax_norm raw min_score max_score =
     ftimes (clip (fdiv (raw - min_score) (max_score - min_score)) 0 1) 100"

definition logistic_norm :: "real \<Rightarrow> fval" where
  \<comment> \<open>\<open>(1 / (1 + np.exp(-0.1 * (raw - 5)))) * 100\<close>, each operation in float64;
      \<open>-0.1\<close> is the negated float64 nearest to \<open>1/10\<close>\<close>
  "logistic_norm raw =
     fmul64
       (fdiv64 (Fin 1)
          (fadd64 (Fin 1)
             (fexp64 (fmul64 (Fin (- round64 (1 / 10))) (fsub64 (Fin raw) (Fin 5))))))
       (Fin 100)"

text \<open>The argument of \<open>np.exp\<close> and what is done with its result, named for the proofs.\<close>

definition logistic_exponent :: "real \<Rightarrow> fval" where
  "logistic_exponent raw = fmul64 (Fin (- round64 (1 / 10))) (fsub64 (Fin raw) (Fin 5))"

definition logistic_of :: "fval \<Rightarrow> fval" where
  "logistic_of u = fmul64 (fdiv64 (Fin 1) (fadd64 (Fin 1) u)) (Fin 100)"

record scored =
  cells :: "string \<Rightarrow> real"
  raw_score :: real
  normalized_score :: fval
  risk_band :: risk_band

definition score_with :: "(real \<Rightarrow> fval) \<Rightarrow> string list \<Rightarrow> (string \<times> real) list \<Rightarrow>
    (string \<Rightarrow> real) \<Rightarrow> scored" where
  "score_with nrm cols ki_weights r =
     (let raw = weighted_sum cols ki_weights r; n = nrm raw
      in \<lparr>cells = r, raw_score = raw, normalized_score = n, risk_band = band n\<rparr>)"

definition compute_fraud_scores ::
    "dataframe \<Rightarrow> (string \<times> real) list \<Rightarrow> string \<Rightarrow> real \<Rightarrow> real \<Rightarrow> error + scored list" where
  "compute_fraud_scores df ki_weights normalization_method min_score max_score =
     (if normalization_method = ''minmax'' then
        Inr (map (score_with (\<lambda>raw. minmax_norm raw min_score max_score) (columns df) ki_weights)
               (rows df))
      else if normalization_method = ''logistic'' then
        Inr (map (score_with logistic_norm (columns df) ki_weights) (rows df))
      else Inl ValueError)"


section \<open>The transaction loop of the pipeline\<close>

text \<open>
  A timestamp is the number of nanoseconds since 1970-01-01 00:00, as pandas stores it;
  that day was a Thursday, and pandas counts Monday as day 0.
\<close>

definition hour_of :: "int \<Rightarrow> int" where
  "hour_of now = (now div 3600000000000) mod 24"

definition dayofweek :: "int \<Rightarrow> int" where
  "dayofweek now = (now div 86400000000000 + 3) mod 7"

definition timedelta_hours :: "int \<Rightarrow> int" where
  "timedelta_hours h = h * 3600000000000"

text \<open>
  A row of \<open>transactions_2025.xlsx\<close>. The columns the loop reads with \<open>txn[...]\<close> are
  always there; a column it reads with \<open>txn.get(...)\<close> may be absent from the sheet,
  which is \<open>None\<close> here. A cell that is there holds a value of the type of its column:
  empty cells (NaN) are not modelled.
\<close>

record txn =
  ACCOUNT_KEY :: string
  TRANSACTION_LOCAL_DATE_TIME :: int
  PARTY_KEY :: string
  REQUESTED_AMOUNT_US_INTL :: real
  CHANNEL :: string
  CURRENCY_CD :: string
  activity_days_ago :: "real option"
  txn_sum_24h :: "real option"
  country_cd :: "string option"
  is_first_foreign_txn :: "bool option"
  acct_creation_days_ago :: "real option"
  txn_count_24h :: "real option"
  unique_payees_24h :: "real option"
  payee_usage_count :: "real option"
  large_txns_2h :: "real option"
  is_known_name_new_account :: "bool option"
  approval_flag :: "bool option"

record profile =
  mean_amt :: real
  std_amt :: real
  typical_currency :: string

record acct_context =
  last_txn_time :: int
  parties_seen :: "string set"
  txn_times :: "int list"

record result =
  res_ACCOUNT_KEY :: string
  res_PARTY_KEY :: string
  res_REQUESTED_AMOUNT_US_INTL :: real
  res_TRANSACTION_LOCAL_DATE_TIME :: int
  res_kis :: "(string \<times> int) list"

text \<open>
  A string is the list of its code points, each one a \<^typ>\<open>char\<close>: the model has the
  strings whose code points are below 256. \<open>lower\<close> and \<open>strip\<close> follow Python's
  \<open>str.lower()\<close> and \<open>str.strip()\<close> on these code points.
\<close>

definition get_or :: "'a option \<Rightarrow> 'a \<Rightarrow> 'a" where
  \<comment> \<open>\<open>d.get(key, default)\<close>, the first argument being the entry of \<open>key\<close>\<close>
  "get_or v dflt = (case v of None \<Rightarrow> dflt | Some x \<Rightarrow> x)"

definition lower :: "string \<Rightarrow> string" where
  \<comment> \<open>\<open>str.lower()\<close>: the upper case letters below 256 are A to Z (65 to 90) and the
      Latin-1 letters 192 to 222 without the multiplication sign 215\<close>
  "lower s =
     map (\<lambda>c. let n = (of_char c :: nat)
              in if (65 \<le> n \<and> n \<le> 90) \<or> (192 \<le> n \<and> n \<le> 222 \<and> n \<noteq> 215)
                 then char_of (n + 32) else c) s"

definition ki_weights :: "(string \<times> real) list" where
  "ki_weights =
     [(''KI01'', 2.0), (''KI02'', 1.5), (''KI03'', 2.0), (''KI04'', 2.0), (''KI05'', 1.5),
      (''KI06'', 2.0), (''KI07'', 1.5), (''KI08'', 1.5), (''KI09'', 1.5), (''KI10'', 1.5),
      (''KI11'', 2.0), (''KI12'', 2.0), (''KI14'', 2.0), (''KI18'', 1.0), (''KI19'', 2.0)]"

definition evaluate_kis :: "txn \<Rightarrow> profile \<Rightarrow> acct_context \<Rightarrow> (string \<times> int) list" where
  \<comment> \<open>the dictionary \<open>kis\<close>, in the order its keys are assigned\<close>
  "evaluate_kis txn profile context =
     (let now = TRANSACTION_LOCAL_DATE_TIME txn;
          hour = hour_of now;
          party = PARTY_KEY txn;
          amount = REQUESTED_AMOUNT_US_INTL txn;
          channel = CHANNEL txn
      in
      [(''KI01'', of_bool (\<bar>amount - mean_amt profile\<bar> > 2 * std_amt profile)),
       (''KI02'', of_bool (get_or (activity_days_ago txn) 0 > 30)),
       (''KI03'', of_bool (party \<notin> parties_seen context \<and> amount > 10000)),
       (''KI04'', of_bool (get_or (txn_sum_24h txn) 0 > 50000)),
       (''KI05'', of_bool ((case country_cd txn of None \<Rightarrow> False
                            | Some c \<Rightarrow> c \<in> set [''IR'', ''RU'', ''NG'', ''CN''])
                           \<and> get_or (is_first_foreign_txn txn) False)),
       (''KI06'', of_bool (get_or (acct_creation_days_ago txn) 100 \<le> 3
                           \<and> get_or (txn_count_24h txn) 0 > 3)),
       (''KI07'', of_bool (get_or (unique_payees_24h txn) 0 > 3)),
       (''KI08'', of_bool (get_or (acct_creation_days_ago txn) 100 \<le> 7
                           \<and> get_or (txn_count_24h txn) 0 > 2)),
       (''KI09'', of_bool (lower channel \<in> set [''mobile'', ''web''] \<and> amount > 5000)),
       (''KI10'', of_bool (get_or (payee_usage_count txn) 10 < 2 \<and> amount > 5000)),
       (''KI11'', of_bool (case country_cd txn of None \<Rightarrow> False
                           | Some c \<Rightarrow> c \<in> set [''IR'', ''RU'', ''NG'', ''CN'', ''KP''])),
       (''KI12'', of_bool (get_or (large_txns_2h txn) 0 > 2)),
       (''KI14'', of_bool (get_or (is_known_name_new_account txn) False)),
       (''KI18'', of_bool (hour \<in> set [0, 1, 2, 3, 4, 5] \<or> dayofweek now \<ge> 5)),
       (''KI19'', of_bool (amount > 100000 \<and> \<not> get_or (approval_flag txn) True))])"

definition ki_entry :: "result \<Rightarrow> string \<Rightarrow> int option" where
  \<comment> \<open>the entry of an indicator in a result row\<close>
  "ki_entry r name = map_of (res_kis r) name"

definition process_txn ::
    "(string \<rightharpoonup> profile) \<Rightarrow> (string \<rightharpoonup> acct_context) \<Rightarrow> txn \<Rightarrow> (string \<rightharpoonup> acct_context) \<times> result" where
  \<comment> \<open>the body of the loop: the new \<open>account_context\<close> and the row appended to \<open>results\<close>\<close>
  "process_txn account_profiles account_context txn =
     (let acct = ACCOUNT_KEY txn;
          now = TRANSACTION_LOCAL_DATE_TIME txn;
          party = PARTY_KEY txn;
          amount = REQUESTED_AMOUNT_US_INTL txn;
          currency = CURRENCY_CD txn;
          profile = get_or (account_profiles acct)
                      \<lparr>mean_amt = 0, std_amt = 1, typical_currency = currency\<rparr>;
          context = get_or (account_context acct)
                      \<lparr>last_txn_time = now - timedelta_hours 2, parties_seen = {},
                       txn_times = []\<rparr>;
          kis = evaluate_kis txn profile context;
          result = \<lparr>res_ACCOUNT_KEY = acct, res_PARTY_KEY = party,
                    res_REQUESTED_AMOUNT_US_INTL = amount,
                    res_TRANSACTION_LOCAL_DATE_TIME = now, res_kis = kis\<rparr>;
          context' = context\<lparr>last_txn_time := now,
                             txn_times := txn_times context @ [now],
                             parties_seen := insert party (parties_seen context)\<rparr>
      in (account_context(acct \<mapsto> context'), result))"

fun transaction_loop ::
    "(string \<rightharpoonup> profile) \<Rightarrow> (string \<rightharpoonup> acct_context) \<Rightarrow> txn list \<Rightarrow> (string \<rightharpoonup> acct_context) \<times> result list" where
  "transaction_loop account_profiles account_context [] = (account_context, [])"
| "transaction_loop account_profiles account_context (txn # df) =
     (let (account_context', result) = process_txn account_profiles account_context txn;
          (account_context'', results) = transaction_loop account_profiles account_context' df
      in (account_context'', result # results))"

definition sort_values :: "txn list \<Rightarrow> txn list" where
  \<comment> \<open>\<open>df.sort_values(by=['ACCOUNT_KEY', 'TRANSACTION_LOCAL_DATE_TIME'])\<close>; rows with equal
      keys keep their order\<close>
  "sort_values df = sort_key (\<lambda>t. (ACCOUNT_KEY t, TRANSACTION_LOCAL_DATE_TIME t)) df"

definition results_df :: "result list \<Rightarrow> dataframe" where
  \<comment> \<open>\<open>pd.DataFrame(results)\<close>, its indicator columns: every row has the keys of \<open>kis\<close>\<close>
  "results_df results =
     \<lparr>columns = (case results of [] \<Rightarrow> [] | r # _ \<Rightarrow> map fst (res_kis r)),
      rows = map (\<lambda>r name. real_of_int (get_or (ki_entry r name) 0)) results\<rparr>"

definition pipeline :: "(string \<rightharpoonup> profile) \<Rightarrow> txn list \<Rightarrow> error + (result \<times> scored) list" where
  \<comment> \<open>the script from the sort to the scored frame: each row of the output has the
      columns of its result row and the three score columns\<close>
  "pipeline account_profiles df =
     (let results = snd (transaction_loop account_profiles Map.empty (sort_values df))
      in case compute_fraud_scores (results_df results) ki_weights ''minmax'' 0 20 of
           Inl e \<Rightarrow> Inl e
         | Inr out \<Rightarrow> Inr (zip results out))"

section \<open>The enhanced scorecard\<close>

text \<open>
  A row of \<open>transactions_2025_engineered.xlsx\<close>. The script indexes the frame with
  \<open>df[...]\<close>, which raises \<open>KeyError\<close> when the sheet has no such column, and reads the
  two country histories with \<open>row.get(..., "")\<close>. An absent column is \<open>None\<close>.
\<close>

record erow =
  e_REQUESTED_AMOUNT_US_INTL :: "real option"
  e_account_mean_amt :: "real option"
  e_account_std_amt :: "real option"
  e_hour :: "int option"
  e_is_new_party :: "bool option"
  e_txn_count_24h :: "real option"
  e_prev_foreign_countries :: "string option"
  e_curr_foreign_countries :: "string option"
  e_acct_creation_days_ago :: "real option"
  e_approval_flag :: "bool option"
  e_payee_usage_count :: "real option"

definition country_risk :: "(string \<times> real) list" where
  "country_risk =
     [(''USA'', 5), (''UK'', 5), (''Argentina'', 10), (''Brazil'', 20), (''Nigeria'', 30),
      (''Russia'', 30), (''CN'', 25), (''IR'', 30), (''NG'', 30), (''KP'', 30)]"

definition ki_weights_enh :: "(string \<times> real) list" where
  "ki_weights_enh =
     [(''KI01_amt_deviation'', 20),
      (''KI02_night_txn'', 10),
      (''KI03_new_payee_high_amt'', 30),
      (''KI04_burst_txns'', 25),
      (''KI05_new_foreign_country'', 40),
      (''KI06_new_acct_high_txn'', 25),
      (''KI07_large_internal_transfer_no_dualauth'', 30),
      (''KI08_payee_risk_low_history'', 15)]"

fun split_on :: "char \<Rightarrow> string \<Rightarrow> string list" where
  \<comment> \<open>\<open>s.split(sep)\<close> for a separator of one character: the empty string gives one empty
      field\<close>
  "split_on sep [] = [[]]"
| "split_on sep (c # cs) =
     (if c = sep then [] # split_on sep cs
      else (case split_on sep cs of [] \<Rightarrow> [[c]] | w # ws \<Rightarrow> (c # w) # ws))"

definition is_space :: "char \<Rightarrow> bool" where
  \<comment> \<open>the white space of \<open>str.strip()\<close> below 256: tab to carriage return, the four
      separators 28 to 31, the space, next line (133) and the no-break space (160)\<close>
  "is_space c =
     (let n = (of_char c :: nat)
      in (9 \<le> n \<and> n \<le> 13) \<or> (28 \<le> n \<and> n \<le> 32) \<or> n = 133 \<or> n = 160)"

definition strip :: "string \<Rightarrow> string" where
  "strip s = rev (dropWhile is_space (rev (dropWhile is_space s)))"

definition compute_ki05_score :: "(string \<times> real) list \<Rightarrow> erow \<Rightarrow> real" where
  \<comment> \<open>a Python set is a list without repetitions here; the table \<open>country_risk\<close> is a
      global of the script and a parameter here\<close>
  "compute_ki05_score risk_table row =
     (let prev_countries = remdups (split_on CHR '','' (get_or (e_prev_foreign_countries row) []));
          curr_countries = remdups (split_on CHR '','' (get_or (e_curr_foreign_countries row) []));
          new_countries = filter (\<lambda>c. c \<notin> set prev_countries) curr_countries;
          scaling = (if length prev_countries \<le> 2 then 1.2
                     else if length prev_countries \<le> 5 then 1.0 else 0.5);
          score = sum_list (map (\<lambda>c. get_or (map_of risk_table (strip c)) 0) new_countries)
                    * scaling
      in score)"

definition col :: "'a option \<Rightarrow> error + 'a" where
  \<comment> \<open>\<open>df[name]\<close>\<close>
  "col c = (case c of None \<Rightarrow> Inl KeyError | Some v \<Rightarrow> Inr v)"

definition ebind :: "error + 'a \<Rightarrow> ('a \<Rightarrow> error + 'b) \<Rightarrow> error + 'b" where
  \<comment> \<open>the next statement runs when the one before did not raise\<close>
  "ebind m f = (case m of Inl e \<Rightarrow> Inl e | Inr v \<Rightarrow> f v)"

definition indicator_columns ::
    "real \<Rightarrow> real \<Rightarrow> real \<Rightarrow> int \<Rightarrow> bool \<Rightarrow> real \<Rightarrow> real \<Rightarrow> real \<Rightarrow> bool \<Rightarrow> real \<Rightarrow>
     (string \<times> real) list" where
  \<comment> \<open>the columns the feature engineering adds to the frame, for one row, from the
      cells it reads and the country sub-score\<close>
  "indicator_columns amount account_mean_amt account_std_amt hour is_new_party txn_count score
       acct_age approval payee_usage =
     [(''KI01_amt_deviation'', of_bool (\<bar>amount - account_mean_amt\<bar> > 2 * account_std_amt)),
      (''KI02_night_txn'', of_bool (hour \<in> set [0, 1, 2, 3, 4, 5])),
      (''KI03_new_payee_high_amt'', of_bool (is_new_party \<and> amount > 10000)),
      (''KI04_burst_txns'', of_bool (txn_count > 4)),
      (''KI05_new_foreign_country_score'', score),
      (''KI05_new_foreign_country'', of_bool (score > 0)),
      (''KI06_new_acct_high_txn'', of_bool (acct_age < 5 \<and> txn_count > 3)),
      (''KI07_large_internal_transfer_no_dualauth'', of_bool (amount > 100000 \<and> \<not> approval)),
      (''KI08_payee_risk_low_history'', of_bool (payee_usage < 2 \<and> amount > 7000))]"

definition indicators :: "(string \<times> real) list \<Rightarrow> erow \<Rightarrow> error + (string \<times> real) list" where
  \<comment> \<open>every \<open>df[...]\<close> of the feature engineering, in the order of the script\<close>
  "indicators risk_table row =
     ebind (col (e_REQUESTED_AMOUNT_US_INTL row)) (\<lambda>amount.
     ebind (col (e_account_mean_amt row)) (\<lambda>account_mean_amt.
     ebind (col (e_account_std_amt row)) (\<lambda>account_std_amt.
     ebind (col (e_hour row)) (\<lambda>hour.
     ebind (col (e_is_new_party row)) (\<lambda>is_new_party.
     ebind (col (e_txn_count_24h row)) (\<lambda>txn_count.
     let score = compute_ki05_score risk_table row in
     ebind (col (e_acct_creation_days_ago row)) (\<lambda>acct_age.
     ebind (col (e_approval_flag row)) (\<lambda>approval.
     ebind (col (e_payee_usage_count row)) (\<lambda>payee_usage.
     Inr (indicator_columns amount account_mean_amt account_std_amt hour is_new_party txn_count
            score acct_age approval payee_usage))))))))))"

fun add_weighted :: "(string \<rightharpoonup> real) \<Rightarrow> real \<Rightarrow> (string \<times> real) list \<Rightarrow> error + real" where
  \<comment> \<open>\<open>for ki, weight in ki_weights.items(): df['raw_score'] += df[ki] * weight\<close>\<close>
  "add_weighted cols acc [] = Inr acc"
| "add_weighted cols acc ((ki, weight) # rest) =
     (case cols ki of
        None \<Rightarrow> Inl KeyError
      | Some v \<Rightarrow> add_weighted cols (acc + v * weight) rest)"

definition raw_score_enh :: "(string \<rightharpoonup> real) \<Rightarrow> (string \<times> real) list \<Rightarrow> error + real" where
  \<comment> \<open>the raw score starts at 0, gets every weighted indicator, then the country
      sub-score\<close>
  "raw_score_enh cols weights =
     ebind (add_weighted cols 0 weights) (\<lambda>raw.
     ebind (col (cols ''KI05_new_foreign_country_score'')) (\<lambda>score.
     Inr (raw + score)))"

definition normalized_score_enh :: "real \<Rightarrow> real" where
  \<comment> \<open>\<open>(raw.clip(0, 260) / 260) * 100\<close>\<close>
  "normalized_score_enh raw = (min (max raw 0) 260 / 260) * 100"

record escored =
  e_indicators :: "(string \<times> real) list"
  e_raw_score :: real
  e_normalized_score :: real
  e_risk_band :: risk_band

definition enhanced_scorecard ::
    "(string \<times> real) list \<Rightarrow> (string \<times> real) list \<Rightarrow> erow \<Rightarrow> error + escored" where
  \<comment> \<open>the script for one row; the weight catalog is a global of the script
      (\<open>ki_weights_enh\<close>) and a parameter here, its keys naming indicator columns\<close>
  "enhanced_scorecard risk_table weights row =
     ebind (indicators risk_table row) (\<lambda>kis.
     ebind (raw_score_enh (map_of kis) weights) (\<lambda>raw.
     let n = normalized_score_enh raw
     in Inr \<lparr>e_indicators = kis, e_raw_score = raw, e_normalized_score = n,
             e_risk_band = band (Fin n)\<rparr>))"

definition country_set :: "string option \<Rightarrow> string set" where
  \<comment> \<open>\<open>set(str(row.get(name, "")).split(","))\<close> as a set: the codes of a history cell, as
      they are written between the commas\<close>
  "country_set cell = set (split_on CHR '','' (get_or cell []))"

section \<open>The context of an account, for the statements about the loop\<close>

definition seen :: "(string \<rightharpoonup> acct_context) \<Rightarrow> string \<Rightarrow> string set" where
  \<comment> \<open>the parties of an account in \<open>account_context\<close>; none before its first row\<close>
  "seen account_context acct =
     (case account_context acct of None \<Rightarrow> {} | Some c \<Rightarrow> parties_seen c)"

definition times_of :: "(string \<rightharpoonup> acct_context) \<Rightarrow> string \<Rightarrow> int list" where
  \<comment> \<open>the list \<open>txn_times\<close> of an account: one entry for each update\<close>
  "times_of account_context acct =
     (case account_context acct of None \<Rightarrow> [] | Some c \<Rightarrow> txn_times c)"

section \<open>Example inputs\<close>

text \<open>
  A row of a sheet that has only the six columns the loop of the pipeline indexes, and
  a complete row of the engineered sheet.
\<close>

definition bare_txn :: "string \<Rightarrow> int \<Rightarrow> string \<Rightarrow> real \<Rightarrow> txn" where
  "bare_txn acct now party amount =
     \<lparr>ACCOUNT_KEY = acct, TRANSACTION_LOCAL_DATE_TIME = now, PARTY_KEY = party,
      REQUESTED_AMOUNT_US_INTL = amount, CHANNEL = ''branch'', CURRENCY_CD = ''USD'',
      activity_days_ago = None, txn_sum_24h = None, country_cd = None,
      is_first_foreign_txn = None, acct_creation_days_ago = None, txn_count_24h = None,
      unique_payees_24h = None, payee_usage_count = None, large_txns_2h = None,
      is_known_name_new_account = None, approval_flag = None\<rparr>"

definition example_row :: erow where
  "example_row =
     \<lparr>e_REQUESTED_AMOUNT_US_INTL = Some 500, e_account_mean_amt = Some 100,
      e_account_std_amt = Some 10, e_hour = Some 2, e_is_new_party = Some True,
      e_txn_count_24h = Some 1, e_prev_foreign_countries = Some ''UK,USA'',
      e_curr_foreign_countries = Some ''UK,USA, IR'', e_acct_creation_days_ago = Some 400,
      e_approval_flag = Some True, e_payee_usage_count = Some 5\<rparr>"

section \<open>Properties of float64 rounding\<close>

lemma rne_of_int [simp]: "rne (of_int n) = n"
  by (simp add: rne_def)

lemma rne_numeral [simp]: "rne (numeral n) = numeral n"
  using rne_of_int [of "numeral n"] by simp

lemma rne_ge_floor: "\<lfloor>y\<rfloor> \<le> rne y"
  by (simp add: rne_def Let_def)

lemma rne_le_floor: "rne y \<le> \<lfloor>y\<rfloor> + 1"
  by (simp add: rne_def Let_def)

lemma rne_mono:
  assumes "x \<le> y"
  shows "rne x \<le> rne y"
proof (cases "\<lfloor>x\<rfloor> = \<lfloor>y\<rfloor>")
  case True
  with assms have "x - of_int \<lfloor>x\<rfloor> \<le> y - of_int \<lfloor>y\<rfloor>" by simp
  with True show ?thesis
    by (auto simp: rne_def Let_def)
next
  case False
  with assms have "\<lfloor>x\<rfloor> + 1 \<le> \<lfloor>y\<rfloor>"
    using floor_mono [of x y] by linarith
  with rne_le_floor [of x] rne_ge_floor [of y] show ?thesis by linarith
qed

lemma rne_minus: "rne (- x) = - rne x"
proof (cases "x \<in> \<int>")
  case True
  then obtain n where "x = of_int n" by (auto elim: Ints_cases)
  then show ?thesis
    by (simp flip: of_int_minus)
next
  case False
  then have ne: "x \<noteq> of_int \<lfloor>x\<rfloor>"
    by (metis Ints_of_int)
  then have fl: "\<lfloor>- x\<rfloor> = - \<lfloor>x\<rfloor> - 1"
    by (simp add: floor_minus ceiling_altdef)
  have d: "- x - of_int (- \<lfloor>x\<rfloor> - 1) = 1 - (x - of_int \<lfloor>x\<rfloor>)"
    by simp
  from ne have "0 < x - of_int \<lfloor>x\<rfloor>" "x - of_int \<lfloor>x\<rfloor> < 1"
    by linarith+
  then show ?thesis
    unfolding rne_def Let_def fl d
    by (auto simp: algebra_simps)
qed

lemma ulp64_pos: "0 < ulp64 x"
  by (simp add: ulp64_def)

lemma ulp64_minus: "ulp64 (- x) = ulp64 x"
  by (simp add: ulp64_def expo64_def)

lemma round64_minus: "round64 (- x) = - round64 x"
  by (simp add: round64_def ulp64_minus rne_minus)

lemma round64_nonneg: "0 \<le> x \<Longrightarrow> 0 \<le> round64 x"
proof -
  assume "0 \<le> x"
  then have "0 \<le> x / ulp64 x"
    using ulp64_pos [of x] by simp
  then have "rne 0 \<le> rne (x / ulp64 x)"
    by (rule rne_mono)
  then have "0 \<le> rne (x / ulp64 x)"
    using rne_of_int [of 0] by simp
  then show ?thesis
    using ulp64_pos [of x] by (simp add: round64_def)
qed

lemma expo64_mono: "0 < x \<Longrightarrow> x \<le> y \<Longrightarrow> expo64 x \<le> expo64 y"
proof -
  assume "0 < x" "x \<le> y"
  then have "log 2 x \<le> log 2 y" by simp
  then have "\<lfloor>log 2 x\<rfloor> \<le> \<lfloor>log 2 y\<rfloor>" by (rule floor_mono)
  with \<open>0 < x\<close> \<open>x \<le> y\<close> show ?thesis
    by (simp add: expo64_def)
qed

lemma pos_less_next: "0 < x \<Longrightarrow> x < 2 powr (of_int (expo64 x) + 1)"
proof -
  assume x: "0 < x"
  have "log 2 x < of_int \<lfloor>log 2 x\<rfloor> + 1" by linarith
  also have "\<dots> \<le> of_int (expo64 x) + 1"
    using x by (simp add: expo64_def)
  finally have "log 2 x < of_int (expo64 x) + 1" .
  then have "2 powr log 2 x < 2 powr (of_int (expo64 x) + 1)"
    by simp
  with x show ?thesis by simp
qed

lemma normal_ge: "0 < x \<Longrightarrow> expo64 x = \<lfloor>log 2 x\<rfloor> \<Longrightarrow> 2 powr of_int (expo64 x) \<le> x"
proof -
  assume x: "0 < x" and e: "expo64 x = \<lfloor>log 2 x\<rfloor>"
  have "of_int \<lfloor>log 2 x\<rfloor> \<le> log 2 x" by simp
  then have "2 powr of_int \<lfloor>log 2 x\<rfloor> \<le> 2 powr log 2 x"
    by simp
  with x e show ?thesis by simp
qed

lemma round64_le_next: "0 < x \<Longrightarrow> round64 x \<le> 2 powr (of_int (expo64 x) + 1)"
proof -
  assume x: "0 < x"
  let ?u = "ulp64 x"
  have u: "0 < ?u" by (rule ulp64_pos)
  have "x / ?u \<le> 2 powr (of_int (expo64 x) + 1) / ?u"
    using pos_less_next [OF x] u by (simp add: divide_right_mono)
  also have "\<dots> = 2 powr 53"
    by (simp add: ulp64_def flip: powr_diff)
  also have "\<dots> = of_int (2 ^ 53)"
    by simp
  finally have "rne (x / ?u) \<le> rne (of_int (2 ^ 53))"
    by (rule rne_mono)
  then have "of_int (rne (x / ?u)) \<le> (2 powr 53 :: real)"
    by simp
  then have "of_int (rne (x / ?u)) * ?u \<le> 2 powr 53 * ?u"
    using u by simp
  also have "\<dots> = 2 powr (53 + (of_int (expo64 x) - 52))"
    unfolding ulp64_def by (rule powr_add [symmetric])
  also have "\<dots> = 2 powr (of_int (expo64 x) + 1)"
    by (simp add: algebra_simps)
  finally show ?thesis
    using x by (simp add: round64_def)
qed

lemma round64_ge_this: 
  "0 < x \<Longrightarrow> expo64 x = \<lfloor>log 2 x\<rfloor> \<Longrightarrow> 2 powr of_int (expo64 x) \<le> round64 x"
proof -
  assume x: "0 < x" and e: "expo64 x = \<lfloor>log 2 x\<rfloor>"
  let ?u = "ulp64 x"
  have u: "0 < ?u" by (rule ulp64_pos)
  have "2 powr of_int (expo64 x) / ?u \<le> x / ?u"
    using normal_ge [OF x e] u by (simp add: divide_right_mono)
  moreover have "2 powr of_int (expo64 x) / ?u = 2 powr 52"
    by (simp add: ulp64_def flip: powr_diff)
  moreover have "(2 powr 52 :: real) = of_int (2 ^ 52)"
    by simp
  ultimately have "rne (of_int (2 ^ 52)) \<le> rne (x / ?u)"
    by (intro rne_mono) simp
  then have "(2 powr 52 :: real) \<le> of_int (rne (x / ?u))"
    by simp
  then have "2 powr 52 * ?u \<le> of_int (rne (x / ?u)) * ?u"
    using u by simp
  moreover have "2 powr 52 * ?u = 2 powr (52 + (of_int (expo64 x) - 52))"
    unfolding ulp64_def by (rule powr_add [symmetric])
  moreover have "52 + (real_of_int (expo64 x) - 52) = of_int (expo64 x)"
    by simp
  ultimately show ?thesis
    using x by (simp add: round64_def)
qed

lemma round64_mono_pos:
  assumes "0 < x" "x \<le> y"
  shows "round64 x \<le> round64 y"
proof (cases "expo64 x = expo64 y")
  case True
  then have u: "ulp64 y = ulp64 x" by (simp add: ulp64_def)
  have "x / ulp64 x \<le> y / ulp64 x"
    using assms ulp64_pos [of x] by (simp add: divide_right_mono)
  then have "rne (x / ulp64 x) \<le> rne (y / ulp64 x)"
    by (rule rne_mono)
  then have "of_int (rne (x / ulp64 x)) * ulp64 x \<le> of_int (rne (y / ulp64 x)) * ulp64 x"
    using ulp64_pos [of x] by simp
  with assms show ?thesis
    by (simp add: round64_def u)
next
  case False
  with expo64_mono [OF assms] have lt: "expo64 x < expo64 y" by simp
  have y: "0 < y" using assms by simp
  have "- 1022 \<le> expo64 x" by (simp add: expo64_def)
  with lt have "expo64 y = \<lfloor>log 2 y\<rfloor>"
    using y by (simp add: expo64_def max_def split: if_splits)
  from round64_ge_this [OF y this] have "2 powr of_int (expo64 y) \<le> round64 y" .
  moreover have "(2::real) powr (of_int (expo64 x) + 1) \<le> 2 powr of_int (expo64 y)"
    using lt by simp
  ultimately show ?thesis
    using round64_le_next [OF assms(1)] by linarith
qed

lemma round64_zero [simp]: "round64 0 = 0"
  by (simp add: round64_def)

lemma round64_mono:
  assumes "x \<le> y"
  shows "round64 x \<le> round64 y"
proof -
  consider "0 < x" | "x \<le> 0" "0 \<le> y" | "y < 0" by linarith
  then show ?thesis
  proof cases
    case 1
    from 1 assms show ?thesis by (rule round64_mono_pos)
  next
    case 2
    from 2(1) have "0 \<le> round64 (- x)" by (intro round64_nonneg) simp
    then have "round64 x \<le> 0" by (simp add: round64_minus)
    with round64_nonneg [OF 2(2)] show ?thesis by simp
  next
    case 3
    with assms have "0 < - y" "- y \<le> - x" by simp_all
    then have "round64 (- y) \<le> round64 (- x)" by (rule round64_mono_pos)
    then show ?thesis by (simp add: round64_minus)
  qed
qed

lemma rne_near: "of_int n \<le> y \<Longrightarrow> y < of_int n + 1/2 \<Longrightarrow> rne y = n"
proof -
  assume a: "of_int n \<le> y" "y < of_int n + 1/2"
  then have "\<lfloor>y\<rfloor> = n" by linarith
  with a show ?thesis by (simp add: rne_def Let_def)
qed

lemma expo64_eq:
  "x \<noteq> 0 \<Longrightarrow> 2 powr of_int k \<le> \<bar>x\<bar> \<Longrightarrow> \<bar>x\<bar> < 2 powr (of_int k + 1) \<Longrightarrow> - 1022 \<le> k
     \<Longrightarrow> expo64 x = k"
proof -
  assume a: "x \<noteq> 0" "2 powr of_int k \<le> \<bar>x\<bar>" "\<bar>x\<bar> < 2 powr (of_int k + 1)" "- 1022 \<le> k"
  then have "\<lfloor>log 2 \<bar>x\<bar>\<rfloor> = k"
    by (subst floor_log_eq_powr_iff) simp_all
  with a(4) show ?thesis by (simp add: expo64_def)
qed

lemma round64_exact:
  assumes "x \<noteq> 0" "x / ulp64 x = of_int m"
  shows "round64 x = x"
proof -
  have "of_int (rne (x / ulp64 x)) * ulp64 x = (x / ulp64 x) * ulp64 x"
    by (simp add: assms(2))
  also have "\<dots> = x"
    using ulp64_pos [of x] by simp
  finally show ?thesis
    using assms(1) by (simp add: round64_def)
qed

lemma round64_pow2:
  assumes "- 1022 \<le> k"
  shows "round64 (2 powr of_int k) = 2 powr of_int k"
proof -
  let ?x = "(2::real) powr of_int k"
  have e: "expo64 ?x = k"
    using assms by (intro expo64_eq) simp_all
  have "?x / ulp64 ?x = 2 powr (of_int k - (of_int k - 52))"
    unfolding ulp64_def e by (rule powr_diff [symmetric])
  also have "\<dots> = of_int (2 ^ 52)"
    by simp
  finally show ?thesis
    by (intro round64_exact) simp_all
qed

lemma round64_of_int:
  assumes "0 < m" "m < 2 ^ 53"
  shows "round64 (of_int m) = of_int m"
proof -
  define k where "k = \<lfloor>log 2 (of_int m)\<rfloor>"
  have m: "(0::real) < of_int m" using assms by simp
  have "\<lfloor>log 2 (real_of_int m)\<rfloor> = k"
    by (simp add: k_def)
  then have "2 powr of_int k \<le> (of_int m :: real) \<and> (of_int m :: real) < 2 powr (of_int k + 1)"
    using m by (subst (asm) floor_log_eq_powr_iff) simp_all
  then have lo: "2 powr of_int k \<le> (of_int m :: real)"
    and hi: "(of_int m :: real) < 2 powr (of_int k + 1)"
    by blast+
  have "(1::real) \<le> of_int m" using assms by simp
  then have "0 \<le> log 2 (of_int m)" by simp
  then have k0: "0 \<le> k" by (simp add: k_def)
  have "(of_int m :: real) < of_int (2 ^ 53)"
    using assms(2) by (simp only: of_int_less_iff)
  then have "(of_int m :: real) < 2 powr 53"
    by simp
  with lo have "(2::real) powr of_int k < 2 powr 53" by linarith
  then have k52: "k \<le> 52"
    using powr_less_cancel_iff [of 2 "of_int k" 53] by simp
  have e: "expo64 (of_int m) = k"
    using m lo hi k0 by (intro expo64_eq) simp_all
  have "of_int m / ulp64 (of_int m) = of_int m * 2 powr (52 - of_int k)"
    unfolding ulp64_def e by (simp add: powr_diff)
  also have "(2::real) powr (52 - of_int k) = 2 powr of_nat (nat (52 - k))"
    using k52 by simp
  also have "\<dots> = of_int (2 ^ nat (52 - k))"
    by (simp add: powr_realpow)
  finally have "of_int m / ulp64 (of_int m) = of_int (m * 2 ^ nat (52 - k))"
    by simp
  moreover have "real_of_int m \<noteq> 0"
    using m by simp
  ultimately show ?thesis
    by (intro round64_exact [where m = "m * 2 ^ nat (52 - k)"])
qed

lemma round64_numeral:
  "(numeral n :: int) < 2 ^ 53 \<Longrightarrow> round64 (numeral n) = numeral n"
  using round64_of_int [of "numeral n"] by simp

lemma round64_one [simp]: "round64 1 = 1"
  using round64_of_int [of 1] by simp

lemma round64_one_plus:
  assumes "0 \<le> e" "e < 2 powr (- 53)"
  shows "round64 (1 + e) = 1"
proof -
  have "(2::real) powr (- 53) < 1" by (simp add: powr_minus)
  with assms have x: "1 \<le> 1 + e" "1 + e < 2" by simp_all
  have ex: "expo64 (1 + e) = 0"
    using x by (intro expo64_eq) simp_all
  have u: "ulp64 (1 + e) = 2 powr (- 52)"
    by (simp add: ulp64_def ex)
  have q: "(1 + e) / ulp64 (1 + e) = 2 ^ 52 + e * 2 ^ 52"
    unfolding u by (simp add: powr_minus field_simps)
  have "e * 2 ^ 52 < 2 powr (- 53) * 2 ^ 52"
    using assms(2) by simp
  also have "\<dots> = 1 / 2"
    by (simp add: powr_minus)
  finally have "e * 2 ^ 52 < 1 / 2" .
  moreover have "0 \<le> e * 2 ^ 52" using assms(1) by simp
  ultimately have "rne ((1 + e) / ulp64 (1 + e)) = 2 ^ 52"
    unfolding q by (intro rne_near) simp_all
  then show ?thesis
    using x by (simp add: round64_def u powr_minus)
qed

lemma exp_ge_pow2: "2 ^ n \<le> exp (real n)"
proof -
  have "(2::real) \<le> exp 1"
    using exp_ge_add_one_self [of 1] by simp
  then have "(2::real) ^ n \<le> exp 1 ^ n"
    by (intro power_mono) simp_all
  also have "\<dots> = exp (real n)"
    by (simp add: exp_of_nat_mult [symmetric])
  finally show ?thesis .
qed

lemma max64_ge: "100 \<le> max64" "0 < max64" "max64 < 2 ^ 1024"
  by (simp_all add: max64_def)

lemma fround_Fin:
  "- max64 \<le> round64 x \<Longrightarrow> round64 x \<le> max64 \<Longrightarrow> fround x = Fin (round64 x)"
  by (simp add: fround_def Let_def)

lemma fround_not_NaN [simp]: "fround x \<noteq> NaN"
  by (simp add: fround_def Let_def)

lemma fround_zero [simp]: "fround 0 = Fin 0"
  using max64_ge(2) by (simp add: fround_def)

lemma fround_between:
  assumes "a \<le> x" "x \<le> b" "round64 a = a" "round64 b = b" "- max64 \<le> a" "b \<le> max64"
  shows "\<exists>r. fround x = Fin r \<and> a \<le> r \<and> r \<le> b"
proof -
  have "a \<le> round64 x" "round64 x \<le> b"
    using round64_mono [OF assms(1)] round64_mono [OF assms(2)] assms(3,4) by simp_all
  with assms(5,6) show ?thesis
    by (simp add: fround_def Let_def)
qed

lemma fround_mono: "x \<le> y \<Longrightarrow> fle (fround x) (fround y)"
  using round64_mono [of x y] max64_ge(2) by (simp add: fround_def Let_def)

lemma fround_nonneg: "0 \<le> x \<Longrightarrow> fround x = PosInf \<or> (\<exists>e\<ge>0. fround x = Fin e)"
  using round64_nonneg [of x] max64_ge(2) by (simp add: fround_def Let_def)

lemma fle_refl_iff: "fle v v = (v \<noteq> NaN)"
  by (cases v) simp_all

lemma fexp64_nonneg: "v \<noteq> NaN \<Longrightarrow> fexp64 v = PosInf \<or> (\<exists>e\<ge>0. fexp64 v = Fin e)"
  by (cases v) (simp_all add: fround_nonneg)

lemma fexp64_mono: "fle v w \<Longrightarrow> fle (fexp64 v) (fexp64 w)"
proof (cases v; cases w)
  fix a b assume "fle v w" "v = Fin a" "w = Fin b"
  then show ?thesis by (simp add: fround_mono)
next
  fix a assume "v = Fin a" "w = PosInf"
  then show ?thesis
    using fround_nonneg [of "exp a"] by auto
next
  fix b assume "v = NegInf" "w = Fin b"
  then show ?thesis
    using fround_nonneg [of "exp b"] by auto
qed simp_all

section \<open>Properties of the logistic score\<close>

lemma logistic_norm_split: "logistic_norm raw = logistic_of (fexp64 (logistic_exponent raw))"
  by (simp add: logistic_norm_def logistic_of_def logistic_exponent_def)

lemma round64_half: "round64 (1 / 2) = 1 / 2"
  using round64_pow2 [of "- 1"] by (simp add: powr_minus)

lemma round64_sixteenth: "round64 (1 / 16) = 1 / 16"
  using round64_pow2 [of "- 4"] by (simp add: powr_minus)

lemma tenth_bounds: "1 / 16 \<le> round64 (1 / 10)" "round64 (1 / 10) \<le> 1"
  using round64_mono [of "1 / 16" "1 / 10"] round64_mono [of "1 / 10" 1]
  by (simp_all add: round64_sixteenth)

lemma fle_NegInf_fround [simp]: "fle NegInf (fround y)"
  by (simp add: fround_def Let_def)

lemma fle_fround_PosInf [simp]: "fle (fround y) PosInf"
  by (simp add: fround_def Let_def)

lemma fmul64_neg_anti:
  assumes "0 < c" "fle v w"
  shows "fle (fmul64 (Fin (- c)) w) (fmul64 (Fin (- c)) v)"
proof (cases v; cases w)
  fix a b assume "v = Fin a" "w = Fin b"
  with assms show ?thesis by (simp add: fround_mono)
qed (use assms in simp_all)

lemma logistic_exponent_anti:
  "r1 \<le> r2 \<Longrightarrow> fle (logistic_exponent r2) (logistic_exponent r1)"
proof -
  assume "r1 \<le> r2"
  then have "fle (fround (r1 + - 5)) (fround (r2 + - 5))"
    by (intro fround_mono) simp
  moreover have "0 < round64 (1 / 10)"
    using tenth_bounds(1) by linarith
  ultimately show ?thesis
    by (simp add: logistic_exponent_def fsub64_def fmul64_neg_anti)
qed

lemma logistic_exponent_not_NaN: "logistic_exponent raw \<noteq> NaN"
  using logistic_exponent_anti [of raw raw] by (simp add: fle_refl_iff)

lemma logistic_of_PosInf: "logistic_of PosInf = Fin 0"
  by (simp add: logistic_of_def)

lemma recip_Fin:
  assumes "1 \<le> d"
  shows "fdiv64 (Fin 1) (Fin d) = Fin (round64 (1 / d))"
    and "0 \<le> round64 (1 / d)" and "round64 (1 / d) \<le> 1"
proof -
  have q: "0 \<le> 1 / d" "1 / d \<le> 1" using assms by simp_all
  show lo: "0 \<le> round64 (1 / d)"
    using q(1) by (rule round64_nonneg)
  show hi: "round64 (1 / d) \<le> 1"
    using round64_mono [OF q(2)] by simp
  from lo hi max64_ge have "fround (1 / d) = Fin (round64 (1 / d))"
    by (intro fround_Fin) linarith+
  with assms show "fdiv64 (Fin 1) (Fin d) = Fin (round64 (1 / d))"
    by simp
qed

lemma times100_Fin:
  assumes "0 \<le> q" "q \<le> 1"
  shows "fmul64 (Fin q) (Fin 100) = Fin (round64 (q * 100))"
    and "0 \<le> round64 (q * 100)" and "round64 (q * 100) \<le> 100"
proof -
  have p: "0 \<le> q * 100" "q * 100 \<le> 100" using assms by simp_all
  show lo: "0 \<le> round64 (q * 100)"
    using p(1) by (rule round64_nonneg)
  show hi: "round64 (q * 100) \<le> 100"
    using round64_mono [OF p(2)] by (simp add: round64_numeral)
  from lo hi max64_ge have "fround (q * 100) = Fin (round64 (q * 100))"
    by (intro fround_Fin) linarith+
  then show "fmul64 (Fin q) (Fin 100) = Fin (round64 (q * 100))"
    by simp
qed

lemma one_plus_ge: "0 \<le> e \<Longrightarrow> 1 \<le> round64 (1 + e)"
  using round64_mono [of 1 "1 + e"] by simp

lemma logistic_of_Fin:
  assumes "0 \<le> e"
  shows "logistic_of (Fin e) =
           (if max64 < round64 (1 + e) then Fin 0
            else Fin (round64 (round64 (1 / round64 (1 + e)) * 100)))"
proof (cases "max64 < round64 (1 + e)")
  case True
  then have "fadd64 (Fin 1) (Fin e) = PosInf"
    by (simp add: fround_def)
  with True show ?thesis
    by (simp add: logistic_of_def)
next
  case False
  let ?d = "round64 (1 + e)"
  have d: "1 \<le> ?d" using assms by (rule one_plus_ge)
  with False max64_ge(2) have "fadd64 (Fin 1) (Fin e) = Fin ?d"
    by (simp add: fround_def Let_def)
  with False show ?thesis
    using recip_Fin [OF d] times100_Fin [of "round64 (1 / ?d)"]
    by (simp add: logistic_of_def)
qed

lemma logistic_of_range:
  assumes "u = PosInf \<or> (\<exists>e\<ge>0. u = Fin e)"
  shows "\<exists>n. logistic_of u = Fin n \<and> 0 \<le> n \<and> n \<le> 100"
proof -
  from assms consider "u = PosInf" | e where "0 \<le> e" "u = Fin e" by blast
  then show ?thesis
  proof cases
    case 1
    then show ?thesis by (simp add: logistic_of_PosInf)
  next
    case 2
    let ?d = "round64 (1 + e)"
    have d: "1 \<le> ?d" using 2(1) by (rule one_plus_ge)
    from recip_Fin(2,3) [OF d] times100_Fin(2,3) [of "round64 (1 / ?d)"]
    show ?thesis
      by (simp add: 2 logistic_of_Fin)
  qed
qed

lemma logistic_of_anti:
  assumes "u = PosInf \<or> (\<exists>e\<ge>0. u = Fin e)" "w = PosInf \<or> (\<exists>e\<ge>0. w = Fin e)" "fle u w"
  shows "fle (logistic_of w) (logistic_of u)"
proof -
  from logistic_of_range [OF assms(1)] obtain n where n: "logistic_of u = Fin n" "0 \<le> n"
    by blast
  from assms(2) consider "w = PosInf" | e2 where "0 \<le> e2" "w = Fin e2" by blast
  then show ?thesis
  proof cases
    case 1
    with n show ?thesis by (simp add: logistic_of_PosInf)
  next
    case 2
    with assms(1,3) obtain e1 where e1: "0 \<le> e1" "u = Fin e1" "e1 \<le> e2"
      by auto
    let ?d1 = "round64 (1 + e1)" and ?d2 = "round64 (1 + e2)"
    have d12: "?d1 \<le> ?d2" using e1(3) by (intro round64_mono) simp
    have d1: "1 \<le> ?d1" using e1(1) by (rule one_plus_ge)
    show ?thesis
    proof (cases "max64 < ?d2")
      case True
      with n 2 show ?thesis by (simp add: logistic_of_Fin)
    next
      case False
      with d12 have f1: "\<not> max64 < ?d1" by linarith
      have "1 / ?d2 \<le> 1 / ?d1"
        using d1 d12 by (simp add: frac_le)
      then have "round64 (1 / ?d2) \<le> round64 (1 / ?d1)"
        by (rule round64_mono)
      then have "round64 (round64 (1 / ?d2) * 100) \<le> round64 (round64 (1 / ?d1) * 100)"
        by (intro round64_mono) simp
      with False f1 show ?thesis
        by (simp add: 2 e1 logistic_of_Fin)
    qed
  qed
qed

lemma logistic_norm_range: "\<exists>n. logistic_norm raw = Fin n \<and> 0 \<le> n \<and> n \<le> 100"
  unfolding logistic_norm_split
  by (intro logistic_of_range fexp64_nonneg logistic_exponent_not_NaN)

lemma logistic_norm_mono: "r1 \<le> r2 \<Longrightarrow> fle (logistic_norm r1) (logistic_norm r2)"
  unfolding logistic_norm_split
  by (intro logistic_of_anti fexp64_nonneg logistic_exponent_not_NaN fexp64_mono
      logistic_exponent_anti)

lemma logistic_of_small:
  assumes "0 \<le> e" "e < 2 powr (- 53)"
  shows "logistic_of (Fin e) = Fin 100"
proof -
  have "round64 (1 + e) = 1" using assms by (rule round64_one_plus)
  moreover have "\<not> max64 < 1" using max64_ge(1) by linarith
  ultimately show ?thesis
    using assms(1) by (simp add: logistic_of_Fin round64_numeral)
qed

lemma exp_minus_64: "exp (- 64 :: real) \<le> 2 powr (- 64)"
proof -
  have "(2::real) ^ 64 \<le> exp (real 64)" by (rule exp_ge_pow2)
  then have "1 / exp (64::real) \<le> 1 / 2 ^ 64"
    by (intro divide_left_mono) simp_all
  then show ?thesis
    by (simp add: exp_minus powr_minus inverse_eq_divide)
qed

lemma fexp64_small:
  assumes "t \<le> - 64"
  shows "\<exists>e. fexp64 (Fin t) = Fin e \<and> 0 \<le> e \<and> e < 2 powr (- 53)"
proof -
  have "exp t \<le> exp (- 64 :: real)" using assms by simp
  with exp_minus_64 have up: "exp t \<le> 2 powr (- 64)" by linarith
  have lo: "0 \<le> round64 (exp t)" by (rule round64_nonneg) simp
  have "round64 (exp t) \<le> round64 (2 powr of_int (- 64))"
    using up by (intro round64_mono) simp
  also have "\<dots> = 2 powr (- 64)"
    using round64_pow2 [of "- 64"] by simp
  finally have hi: "round64 (exp t) \<le> 2 powr (- 64)" .
  have "(2::real) powr (- 64) < 2 powr (- 53)" by simp
  with hi have hi': "round64 (exp t) < 2 powr (- 53)" by linarith
  have "(2::real) powr (- 53) \<le> 1" by (simp add: powr_minus inverse_eq_divide)
  with hi' lo max64_ge have "fround (exp t) = Fin (round64 (exp t))"
    by (intro fround_Fin) linarith+
  with lo hi' show ?thesis by simp
qed

lemma logistic_of_fexp64_low:
  assumes "u = NegInf \<or> (\<exists>t\<le>- 64. u = Fin t)"
  shows "logistic_of (fexp64 u) = Fin 100"
proof -
  from assms consider "u = NegInf" | t where "t \<le> - 64" "u = Fin t" by blast
  then show ?thesis
  proof cases
    case 1
    then show ?thesis by (simp add: logistic_of_small)
  next
    case 2
    from fexp64_small [OF 2(1)] obtain e
      where "fexp64 (Fin t) = Fin e" "0 \<le> e" "e < 2 powr (- 53)" by blast
    with 2 show ?thesis by (simp add: logistic_of_small)
  qed
qed

lemma fround_cases_le:
  assumes "x \<le> a" "round64 a = a"
  shows "fround x = NegInf \<or> (\<exists>t\<le>a. fround x = Fin t) \<or> (fround x = PosInf \<and> max64 < a)"
proof -
  have "round64 x \<le> a" using round64_mono [OF assms(1)] assms(2) by simp
  then show ?thesis by (auto simp add: fround_def Let_def)
qed

lemma fround_cases_ge:
  assumes "a \<le> x" "round64 a = a"
  shows "fround x = PosInf \<or> (\<exists>t\<ge>a. fround x = Fin t) \<or> (fround x = NegInf \<and> a < - max64)"
proof -
  have "a \<le> round64 x" using round64_mono [OF assms(1)] assms(2) by simp
  then show ?thesis by (auto simp add: fround_def Let_def)
qed

lemma round64_neg_numeral: "numeral n < (2::int) ^ 53 \<Longrightarrow> round64 (- numeral n) = - numeral n"
  using round64_minus [of "numeral n"] by (simp add: round64_numeral)

lemma logistic_exponent_high:
  assumes "1029 \<le> raw"
  shows "logistic_exponent raw = NegInf \<or> (\<exists>t\<le>- 64. logistic_exponent raw = Fin t)"
proof -
  let ?c = "round64 (1 / 10)"
  have c: "1 / 16 \<le> ?c" by (rule tenth_bounds)
  have e: "logistic_exponent raw = fmul64 (Fin (- ?c)) (fround (raw - 5))"
    by (simp add: logistic_exponent_def fsub64_def)
  have "1024 \<le> raw - 5" using assms by simp
  moreover have "round64 1024 = 1024" by (simp add: round64_numeral)
  ultimately have "fround (raw - 5) = PosInf \<or> (\<exists>t\<ge>1024. fround (raw - 5) = Fin t)
      \<or> (fround (raw - 5) = NegInf \<and> 1024 < - max64)"
    by (rule fround_cases_ge)
  with max64_ge(2) consider "fround (raw - 5) = PosInf"
    | t where "1024 \<le> t" "fround (raw - 5) = Fin t" by fastforce
  then show ?thesis
  proof cases
    case 1
    with c show ?thesis by (simp add: e)
  next
    case 2
    have m: "logistic_exponent raw = fround (- (?c * t))"
      by (simp add: e 2)
    have "?c * t \<ge> (1 / 16) * 1024"
      using c 2(1) by (intro mult_mono) simp_all
    then have "- (?c * t) \<le> - 64" by simp
    moreover have "round64 (- 64) = - 64" by (simp add: round64_neg_numeral)
    ultimately have "fround (- (?c * t)) = NegInf \<or> (\<exists>s\<le>- 64. fround (- (?c * t)) = Fin s)
      \<or> (fround (- (?c * t)) = PosInf \<and> max64 < - 64)"
      by (rule fround_cases_le)
    with max64_ge(2) show ?thesis
      unfolding m by fastforce
  qed
qed

lemma logistic_norm_high: "1029 \<le> raw \<Longrightarrow> logistic_norm raw = Fin 100"
  unfolding logistic_norm_split
  by (intro logistic_of_fexp64_low logistic_exponent_high)

lemma fexp64_big:
  assumes "1024 \<le> t"
  shows "fexp64 (Fin t) = PosInf"
proof -
  have "(2::real) ^ 1024 \<le> exp (real 1024)" by (rule exp_ge_pow2)
  also have "\<dots> \<le> exp t" using assms by simp
  finally have "2 powr of_int 1024 \<le> exp t" by simp
  then have "round64 (2 powr of_int 1024) \<le> round64 (exp t)"
    by (rule round64_mono)
  moreover have "round64 (2 powr of_int 1024) = 2 powr of_int 1024"
    by (rule round64_pow2) simp
  ultimately have "2 ^ 1024 \<le> round64 (exp t)" by simp
  with max64_ge(3) have "max64 < round64 (exp t)" by linarith
  then show ?thesis by (simp add: fround_def)
qed

lemma logistic_exponent_low:
  assumes "raw \<le> - 16379"
  shows "logistic_exponent raw = PosInf \<or> (\<exists>t\<ge>1024. logistic_exponent raw = Fin t)"
proof -
  let ?c = "round64 (1 / 10)"
  have c: "1 / 16 \<le> ?c" by (rule tenth_bounds)
  have e: "logistic_exponent raw = fmul64 (Fin (- ?c)) (fround (raw - 5))"
    by (simp add: logistic_exponent_def fsub64_def)
  have "raw - 5 \<le> - 16384" using assms by simp
  moreover have "round64 (- 16384) = - 16384" by (simp add: round64_neg_numeral)
  ultimately have "fround (raw - 5) = NegInf \<or> (\<exists>t\<le>- 16384. fround (raw - 5) = Fin t)
      \<or> (fround (raw - 5) = PosInf \<and> max64 < - 16384)"
    by (rule fround_cases_le)
  with max64_ge(2) consider "fround (raw - 5) = NegInf"
    | t where "t \<le> - 16384" "fround (raw - 5) = Fin t" by fastforce
  then show ?thesis
  proof cases
    case 1
    with c show ?thesis by (simp add: e)
  next
    case 2
    have m: "logistic_exponent raw = fround (- (?c * t))"
      by (simp add: e 2)
    have "?c * (- t) \<ge> (1 / 16) * 16384"
      using c 2(1) by (intro mult_mono) simp_all
    then have "1024 \<le> - (?c * t)" by simp
    moreover have "round64 1024 = 1024" by (simp add: round64_numeral)
    ultimately have "fround (- (?c * t)) = PosInf \<or> (\<exists>s\<ge>1024. fround (- (?c * t)) = Fin s)
      \<or> (fround (- (?c * t)) = NegInf \<and> 1024 < - max64)"
      by (rule fround_cases_ge)
    with max64_ge(2) show ?thesis
      unfolding m by fastforce
  qed
qed

lemma logistic_norm_low:
  assumes "raw \<le> - 16379"
  shows "logistic_norm raw = Fin 0"
proof -
  from logistic_exponent_low [OF assms]
  have "fexp64 (logistic_exponent raw) = PosInf"
    by (auto simp add: fexp64_big simp del: fexp64.simps(1))
  then show ?thesis
    by (simp add: logistic_norm_split logistic_of_PosInf)
qed

lemma logistic_norm_midpoint: "logistic_norm 5 = Fin 50"
proof -
  have "logistic_exponent 5 = Fin 0"
    by (simp add: logistic_exponent_def fsub64_def)
  moreover have "fexp64 (Fin 0) = Fin 1"
    using max64_ge(1) by (simp add: fround_def)
  moreover have "\<not> max64 < 2" using max64_ge(1) by linarith
  ultimately show ?thesis
    by (simp add: logistic_norm_split logistic_of_Fin round64_numeral round64_half)
qed

section \<open>Properties of the score aggregation\<close>

lemma foldl_weighted:
  "foldl (\<lambda>acc (ki, weight). acc + f ki * weight) a ws
     = a + (\<Sum>(ki, weight)\<leftarrow>ws. f ki * (weight::real))"
  by (induction ws arbitrary: a) (auto simp: algebra_simps)

lemma weighted_sum_present:
  "weighted_sum cols ws r
     = (\<Sum>(ki, weight)\<leftarrow>filter (\<lambda>(ki, weight). ki \<in> set cols) ws. r ki * weight)"
proof -
  have "(\<Sum>(ki, weight)\<leftarrow>ws. df_get cols r ki 0 * weight)
          = (\<Sum>(ki, weight)\<leftarrow>filter (\<lambda>(ki, weight). ki \<in> set cols) ws. r ki * weight)"
    by (induction ws) (auto simp: df_get_def)
  then show ?thesis
    by (simp add: weighted_sum_def foldl_weighted)
qed

lemma pipeline_minmax:
  "pipeline P df =
     (let results = snd (transaction_loop P Map.empty (sort_values df))
      in Inr (zip results
                (map (score_with (\<lambda>raw. minmax_norm raw 0 20) (columns (results_df results))
                        ki_weights)
                   (rows (results_df results)))))"
  by (simp add: pipeline_def compute_fraud_scores_def Let_def)

lemma weighted_sum_list:
  "weighted_sum cols ws r = (\<Sum>(ki, weight)\<leftarrow>ws. df_get cols r ki 0 * weight)"
  by (simp add: weighted_sum_def foldl_weighted)

lemma band_Fin:
  "band (Fin s) = (if 71 \<le> s then High_Risk else if 41 \<le> s then Medium_Risk else Low_Risk)"
  by (simp add: band_def fge_def)


text \<open>
  Claim C2. The risk band is a function of the normalized score alone, with
  lower-inclusive boundaries: High from 71, Medium from 41 below 71, Low otherwise; a
  score of exactly 71 is High and a score of exactly 41 is Medium; and a larger score
  never gets a lower tier than a smaller one.
\<close>

theorem band_thresholds_monotone:
  "band (Fin s) = (if 71 \<le> s then High_Risk
                   else if 41 \<le> s \<and> s < 71 then Medium_Risk else Low_Risk)
   \<and> band (Fin 71) = High_Risk
   \<and> band (Fin 41) = Medium_Risk
   \<and> (s1 < s2 \<longrightarrow> tier (band (Fin s1)) \<le> tier (band (Fin s2)))"
  by (simp add: band_Fin)

theorem band_thresholds_monotone_witness:
  "(40.5::real) < 71
   \<and> band (Fin 40.5) = Low_Risk \<and> band (Fin 71) = High_Risk
   \<and> tier (band (Fin 40.5)) \<le> tier (band (Fin 71))"
  using band_thresholds_monotone [of "40.5" "40.5" 71] by (simp add: band_Fin)



lemma weighted_sum_single: "weighted_sum [k] [(k, w)] (\<lambda>name. v) = v * w"
  by (simp add: weighted_sum_def df_get_def)

text \<open>
  Claim C4, as amended. The method \<open>'logistic'\<close> of \<open>compute_fraud_scores\<close> gives
  every row the float64 evaluation of \<open>(1 / (1 + exp(-0.1 * (raw - 5)))) * 100\<close> at the
  raw score of the row. This score is a finite number of the closed interval
  \<open>[0, 100]\<close>, it never decreases when the raw score grows, and it is exactly 50 at the
  midpoint 5. Both bounds are reached: the score is exactly 100 for every raw score from
  1029 on, and exactly 0 for every raw score up to -16379.
\<close>

theorem logistic_norm_closed_bounds_monotone:
  "logistic_norm raw
     = fmul64
         (fdiv64 (Fin 1)
            (fadd64 (Fin 1)
               (fexp64 (fmul64 (Fin (- round64 (1 / 10))) (fsub64 (Fin raw) (Fin 5))))))
         (Fin 100)
   \<and> (\<exists>n. logistic_norm raw = Fin n \<and> 0 \<le> n \<and> n \<le> 100)
   \<and> (r1 \<le> r2 \<longrightarrow> fle (logistic_norm r1) (logistic_norm r2))
   \<and> logistic_norm 5 = Fin 50
   \<and> (1029 \<le> high \<longrightarrow> logistic_norm high = Fin 100)
   \<and> (low \<le> - 16379 \<longrightarrow> logistic_norm low = Fin 0)
   \<and> map_sum id (map (\<lambda>s. (raw_score s, normalized_score s)))
         (compute_fraud_scores df ws ''logistic'' min_score max_score)
       = Inr (map (\<lambda>r. (weighted_sum (columns df) ws r,
                        logistic_norm (weighted_sum (columns df) ws r)))
                (rows df))"
proof -
  have wiring: "map_sum id (map (\<lambda>s. (raw_score s, normalized_score s)))
         (compute_fraud_scores df ws ''logistic'' min_score max_score)
       = Inr (map (\<lambda>r. (weighted_sum (columns df) ws r,
                        logistic_norm (weighted_sum (columns df) ws r)))
                (rows df))"
    by (simp add: compute_fraud_scores_def score_with_def Let_def comp_def)
  have mono: "r1 \<le> r2 \<longrightarrow> fle (logistic_norm r1) (logistic_norm r2)"
    by (simp add: logistic_norm_mono)
  have top: "1029 \<le> high \<longrightarrow> logistic_norm high = Fin 100"
    by (simp add: logistic_norm_high)
  have bottom: "low \<le> - 16379 \<longrightarrow> logistic_norm low = Fin 0"
    by (simp add: logistic_norm_low)
  show ?thesis
    by (intro conjI logistic_norm_def logistic_norm_range mono logistic_norm_midpoint
        top bottom wiring)
qed

theorem logistic_norm_closed_bounds_monotone_witness:
  "(5::real) \<le> 2005 \<and> (1029::real) \<le> 2005 \<and> (- 20000::real) \<le> - 16379
   \<and> fle (logistic_norm 5) (logistic_norm 2005)
   \<and> logistic_norm 5 = Fin 50
   \<and> logistic_norm 2005 = Fin 100
   \<and> logistic_norm (- 20000) = Fin 0
   \<and> map_sum id (map (\<lambda>s. (raw_score s, normalized_score s)))
         (compute_fraud_scores \<lparr>columns = [''KI01''], rows = [\<lambda>name. 1]\<rparr>
            [(''KI01'', 5)] ''logistic'' 0 20)
       = Inr [(5, Fin 50)]"
  using logistic_norm_closed_bounds_monotone
    [where raw = 0 and ?r1.0 = 5 and ?r2.0 = 2005 and high = 2005 and low = "- 20000"
       and df = "\<lparr>columns = [''KI01''], rows = [\<lambda>name. 1]\<rparr>" and ws = "[(''KI01'', 5)]"
       and min_score = 0 and max_score = 20]
  by (simp add: weighted_sum_single)

text \<open>
  Claim C4 as stated fails: the score is not strictly inside \<open>(0, 100)\<close> and not
  strictly increasing. The raw scores 2005 and 3005 both get exactly 100, since float64
  rounds \<open>1 + exp(-200)\<close> to 1; the raw score -20000 gets exactly 0, since
  \<open>exp(2000.5)\<close> overflows to \<open>inf\<close>.
\<close>

theorem logistic_norm_saturates_counterexample:
  "map_sum id (map (\<lambda>s. (raw_score s, normalized_score s)))
     (compute_fraud_scores
        \<lparr>columns = [''KI01''], rows = [\<lambda>name. 401, \<lambda>name. 601, \<lambda>name. - 4000]\<rparr>
        [(''KI01'', 5)] ''logistic'' 0 20)
   = Inr [(2005, Fin 100), (3005, Fin 100), (- 20000, Fin 0)]"
  by (simp add: compute_fraud_scores_def score_with_def Let_def weighted_sum_single
      logistic_norm_high logistic_norm_low)

text \<open>
  Claim C8, as amended. \<open>compute_fraud_scores\<close> raises exactly when the normalization
  method is neither \<open>'minmax'\<close> nor \<open>'logistic'\<close>, and then it raises \<open>ValueError\<close>;
  the bounds play no part in it. The function has no check of the bounds.
\<close>

theorem compute_fraud_scores_raises_iff:
  "(compute_fraud_scores df ws m min_score max_score = Inl ValueError)
     = (m \<noteq> ''minmax'' \<and> m \<noteq> ''logistic'')
   \<and> isl (compute_fraud_scores df ws m min_score max_score)
     = (m \<noteq> ''minmax'' \<and> m \<noteq> ''logistic'')"
  by (simp add: compute_fraud_scores_def)

text \<open>
  Claim C8 as stated fails: with \<open>max_score = min_score = 0\<close> and the method
  \<open>'minmax'\<close> nothing is raised. Every row is scored: a row above the bound gets
  the score 100 and the band High Risk, a row at the bound gets NaN and Low Risk.
\<close>

theorem compute_fraud_scores_equal_bounds_counterexample:
  "map_sum id (map (\<lambda>s. (raw_score s, normalized_score s, risk_band s)))
     (compute_fraud_scores \<lparr>columns = [''KI01''], rows = [\<lambda>name. 1, \<lambda>name. 0]\<rparr>
        [(''KI01'', 2)] ''minmax'' 0 0)
   = Inr [(2, Fin 100, High_Risk), (0, NaN, Low_Risk)]"
  by (simp add: compute_fraud_scores_def score_with_def weighted_sum_def df_get_def
      minmax_norm_def fdiv_def clip_def ftimes_def band_def fge_def)

text \<open>
  Claim C10. An indicator that the weight catalog names and the frame has no column for
  adds nothing to the raw score and raises nothing: whenever the method is supported
  the raw score of each row is the weighted sum over the catalog entries whose column
  is present, and the only error is the \<open>ValueError\<close> of an unsupported method.
\<close>

theorem absent_indicator_contributes_zero:
  "map_sum id (map raw_score) (compute_fraud_scores df ws m min_score max_score)
     = (if m = ''minmax'' \<or> m = ''logistic''
        then Inr (map (\<lambda>r. \<Sum>(ki, weight)\<leftarrow>filter (\<lambda>(ki, weight). ki \<in> set (columns df)) ws.
                              r ki * weight) (rows df))
        else Inl ValueError)"
  by (simp add: compute_fraud_scores_def score_with_def weighted_sum_present comp_def Let_def)

section \<open>Properties of the enhanced scorecard\<close>

lemma add_weighted_sum:
  "add_weighted cols acc ws =
     (if \<forall>(ki, weight)\<in>set ws. cols ki \<noteq> None
      then Inr (acc + (\<Sum>(ki, weight)\<leftarrow>ws. weight * the (cols ki)))
      else Inl KeyError)"
proof (induction ws arbitrary: acc)
  case Nil
  show ?case by simp
next
  case (Cons x ws)
  obtain ki weight where x: "x = (ki, weight)" by (cases x)
  show ?case
  proof (cases "cols ki")
    case None
    then show ?thesis by (auto simp: x)
  next
    case (Some v)
    then show ?thesis by (simp add: x Cons.IH algebra_simps)
  qed
qed

lemma raw_score_enh_Inr:
  assumes "raw_score_enh cols ws = Inr raw"
  shows "\<exists>score. cols ''KI05_new_foreign_country_score'' = Some score
           \<and> raw = (\<Sum>(ki, weight)\<leftarrow>ws. weight * the (cols ki)) + score
           \<and> (\<forall>(ki, weight)\<in>set ws. cols ki \<noteq> None)"
proof -
  from assms obtain r0 where r0: "add_weighted cols 0 ws = Inr r0"
    by (cases "add_weighted cols 0 ws") (simp_all add: raw_score_enh_def ebind_def)
  from assms r0 obtain score where sc: "cols ''KI05_new_foreign_country_score'' = Some score"
    and raw: "raw = r0 + score"
    by (cases "cols ''KI05_new_foreign_country_score''")
       (simp_all add: raw_score_enh_def ebind_def col_def)
  from r0 have "(\<forall>(ki, weight)\<in>set ws. cols ki \<noteq> None)"
    and "r0 = (\<Sum>(ki, weight)\<leftarrow>ws. weight * the (cols ki))"
    by (simp_all add: add_weighted_sum split: if_splits)
  with sc raw show ?thesis by simp
qed

lemma ebind_col_Inr: "(ebind (col c) f = Inr y) = (\<exists>v. c = Some v \<and> f v = Inr y)"
  by (cases c) (simp_all add: ebind_def col_def)

lemma indicators_Inr:
  assumes "indicators rt row = Inr kis"
  obtains a m s h p t g f u
  where "kis = indicator_columns a m s h p t (compute_ki05_score rt row) g f u"
  using assms unfolding indicators_def Let_def ebind_col_Inr by blast

lemma of_bool_real_01: "(of_bool P :: real) = 0 \<or> (of_bool P :: real) = 1"
  by (cases P) simp_all

lemma indicator_columns_lookup:
  "map_of (indicator_columns a m s h p t score g f u) ''KI05_new_foreign_country_score'' = Some score"
  "map_of (indicator_columns a m s h p t score g f u) ''KI05_new_foreign_country''
     = Some (of_bool (0 < score))"
  "\<forall>(ki, weight)\<in>set ki_weights_enh.
     map_of (indicator_columns a m s h p t score g f u) ki = Some 0
     \<or> map_of (indicator_columns a m s h p t score g f u) ki = Some 1"
proof -
  define b1 where "b1 = (\<bar>a - m\<bar> > 2 * s)"
  define b2 where "b2 = (h \<in> set [0, 1, 2, 3, 4, 5])"
  define b3 where "b3 = (p \<and> a > 10000)"
  define b4 where "b4 = (t > 4)"
  define b6 where "b6 = (g < 5 \<and> t > 3)"
  define b7 where "b7 = (a > 100000 \<and> \<not> f)"
  define b8 where "b8 = (u < 2 \<and> a > 7000)"
  have eq: "indicator_columns a m s h p t score g f u =
       [(''KI01_amt_deviation'', of_bool b1),
        (''KI02_night_txn'', of_bool b2),
        (''KI03_new_payee_high_amt'', of_bool b3),
        (''KI04_burst_txns'', of_bool b4),
        (''KI05_new_foreign_country_score'', score),
        (''KI05_new_foreign_country'', of_bool (score > 0)),
        (''KI06_new_acct_high_txn'', of_bool b6),
        (''KI07_large_internal_transfer_no_dualauth'', of_bool b7),
        (''KI08_payee_risk_low_history'', of_bool b8)]"
    by (simp only: indicator_columns_def b1_def b2_def b3_def b4_def b6_def b7_def b8_def)
  show "map_of (indicator_columns a m s h p t score g f u) ''KI05_new_foreign_country_score'' = Some score"
    unfolding eq by simp
  show "map_of (indicator_columns a m s h p t score g f u) ''KI05_new_foreign_country''
     = Some (of_bool (0 < score))"
    unfolding eq by simp
  show "\<forall>(ki, weight)\<in>set ki_weights_enh.
     map_of (indicator_columns a m s h p t score g f u) ki = Some 0
     \<or> map_of (indicator_columns a m s h p t score g f u) ki = Some 1"
    unfolding eq ki_weights_enh_def by (simp add: of_bool_real_01)
qed

lemma enhanced_scorecard_Inr:
  assumes "enhanced_scorecard rt ws row = Inr out"
  obtains kis where "indicators rt row = Inr kis"
    and "raw_score_enh (map_of kis) ws = Inr (e_raw_score out)"
    and "e_indicators out = kis"
proof -
  from assms obtain kis where kis: "indicators rt row = Inr kis"
    by (cases "indicators rt row") (simp_all add: enhanced_scorecard_def ebind_def)
  with assms obtain raw where raw: "raw_score_enh (map_of kis) ws = Inr raw"
    by (cases "raw_score_enh (map_of kis) ws") (simp_all add: enhanced_scorecard_def ebind_def)
  with assms kis have "e_indicators out = kis" "e_raw_score out = raw"
    by (auto simp: enhanced_scorecard_def ebind_def Let_def)
  with kis raw that show ?thesis by blast
qed

text \<open>
  Claim C1, as amended. The raw score of the enhanced scorecard is the sum, over the
  weight catalog, of weight times indicator column, plus the country sub-score of the
  row, added once and with no weight. Every entry of the script's own catalog is a
  column of 0 or 1, the boolean companion \<open>KI05_new_foreign_country\<close> is one of them,
  and the sub-score column is not in the catalog. The raw score of
  \<open>compute_fraud_scores\<close> in the pipeline is the weighted sum over the catalog and
  nothing else: \<open>df.get(ki, 0)\<close> times the weight, for each entry of the catalog.
\<close>

theorem raw_score_weighted_plus_subscore:
  "enhanced_scorecard rt ws row = Inr out \<Longrightarrow>
     e_raw_score out
       = (\<Sum>(ki, weight)\<leftarrow>ws. weight * the (map_of (e_indicators out) ki))
         + compute_ki05_score rt row
     \<and> (\<forall>(ki, weight)\<in>set ws. map_of (e_indicators out) ki \<noteq> None)
     \<and> (\<forall>(ki, weight)\<in>set ki_weights_enh.
           map_of (e_indicators out) ki = Some 0 \<or> map_of (e_indicators out) ki = Some 1)
     \<and> ''KI05_new_foreign_country_score'' \<notin> fst ` set ki_weights_enh
     \<and> map_of (e_indicators out) ''KI05_new_foreign_country''
         = Some (of_bool (0 < compute_ki05_score rt row))
     \<and> map_sum id (map raw_score) (compute_fraud_scores df pws meth min_score max_score)
         = (if meth = ''minmax'' \<or> meth = ''logistic''
            then Inr (map (\<lambda>r. \<Sum>(ki, weight)\<leftarrow>pws. df_get (columns df) r ki 0 * weight)
                        (rows df))
            else Inl ValueError)"
proof -
  assume run: "enhanced_scorecard rt ws row = Inr out"
  from enhanced_scorecard_Inr [OF run] obtain kis where kis: "indicators rt row = Inr kis"
    and raw: "raw_score_enh (map_of kis) ws = Inr (e_raw_score out)"
    and out: "e_indicators out = kis"
    by blast
  from indicators_Inr [OF kis] obtain a m s h p t g f u
    where cols: "kis = indicator_columns a m s h p t (compute_ki05_score rt row) g f u"
    by blast
  from raw_score_enh_Inr [OF raw] obtain score
    where sc: "map_of kis ''KI05_new_foreign_country_score'' = Some score"
      and sum: "e_raw_score out = (\<Sum>(ki, weight)\<leftarrow>ws. weight * the (map_of kis ki)) + score"
      and present: "\<forall>(ki, weight)\<in>set ws. map_of kis ki \<noteq> None"
    by blast
  from sc have "score = compute_ki05_score rt row"
    by (simp add: cols indicator_columns_lookup(1))
  with sum have 1: "e_raw_score out
       = (\<Sum>(ki, weight)\<leftarrow>ws. weight * the (map_of (e_indicators out) ki))
         + compute_ki05_score rt row"
    by (simp add: out)
  have 2: "\<forall>(ki, weight)\<in>set ws. map_of (e_indicators out) ki \<noteq> None"
    using present by (simp add: out)
  have 3: "\<forall>(ki, weight)\<in>set ki_weights_enh.
           map_of (e_indicators out) ki = Some 0 \<or> map_of (e_indicators out) ki = Some 1"
    unfolding out cols by (rule indicator_columns_lookup(3))
  have 4: "''KI05_new_foreign_country_score'' \<notin> fst ` set ki_weights_enh"
    by (simp add: ki_weights_enh_def)
  have 5: "map_of (e_indicators out) ''KI05_new_foreign_country''
         = Some (of_bool (0 < compute_ki05_score rt row))"
    unfolding out cols by (rule indicator_columns_lookup(2))
  have 6: "map_sum id (map raw_score) (compute_fraud_scores df pws meth min_score max_score)
         = (if meth = ''minmax'' \<or> meth = ''logistic''
            then Inr (map (\<lambda>r. \<Sum>(ki, weight)\<leftarrow>pws. df_get (columns df) r ki 0 * weight)
                        (rows df))
            else Inl ValueError)"
    by (simp add: compute_fraud_scores_def score_with_def weighted_sum_list comp_def Let_def)
  from 1 2 3 4 5 6 show ?thesis by (intro conjI)
qed

theorem raw_score_weighted_plus_subscore_witness:
  "\<exists>out. enhanced_scorecard country_risk ki_weights_enh example_row = Inr out
     \<and> e_raw_score out
         = (\<Sum>(ki, weight)\<leftarrow>ki_weights_enh. weight * the (map_of (e_indicators out) ki))
           + compute_ki05_score country_risk example_row
     \<and> compute_ki05_score country_risk example_row = 36
     \<and> e_raw_score out = 106
     \<and> map_sum id (map raw_score)
           (compute_fraud_scores \<lparr>columns = [''KI01'', ''KI02''], rows = [\<lambda>name. 1]\<rparr>
              [(''KI01'', 2), (''KI02'', 1.5)] ''minmax'' 0 20)
         = Inr [3.5]"
proof -
  have run: "enhanced_scorecard country_risk ki_weights_enh example_row =
      Inr \<lparr>e_indicators =
        [(''KI01_amt_deviation'', 1), (''KI02_night_txn'', 1),
         (''KI03_new_payee_high_amt'', 0), (''KI04_burst_txns'', 0),
         (''KI05_new_foreign_country_score'', 36),
         (''KI05_new_foreign_country'', 1), (''KI06_new_acct_high_txn'', 0),
         (''KI07_large_internal_transfer_no_dualauth'', 0),
         (''KI08_payee_risk_low_history'', 0)],
        e_raw_score = 106, e_normalized_score = 530 / 13,
        e_risk_band = Low_Risk\<rparr>"
    by code_simp
  have sc: "compute_ki05_score country_risk example_row = 36"
    by code_simp
  from raw_score_weighted_plus_subscore
      [where df = "\<lparr>columns = [''KI01'', ''KI02''], rows = [\<lambda>name. 1]\<rparr>"
         and pws = "[(''KI01'', 2), (''KI02'', 1.5)]" and meth = "''minmax''"
         and min_score = 0 and max_score = 20, OF run] sc
  show ?thesis
    unfolding run by (simp add: df_get_def)
qed

text \<open>
  Claim C1 as stated fails in the pipeline. \<open>compute_fraud_scores\<close> adds no sub-score: on
  a frame that has the boolean \<open>KI05 = 1\<close> and a column with the continuous sub-score 36,
  the raw score is \<open>1.5 * 1 = 1.5\<close> and not \<open>1.5 + 36\<close>. And the script makes no such
  column: a first transaction from Iran gets \<open>KI05 = 1\<close> and \<open>KI11 = 1\<close>, and its raw
  score is \<open>1.5 + 2.0\<close>.
\<close>

theorem pipeline_adds_no_subscore_counterexample:
  "map_sum id (map raw_score)
     (compute_fraud_scores
        \<lparr>columns = [''KI05'', ''KI05_new_foreign_country_score''],
         rows = [\<lambda>name. if name = ''KI05'' then 1 else 36]\<rparr>
        [(''KI05'', 1.5)] ''minmax'' 0 20)
     = Inr [1.5]
   \<and> map_sum id (map (\<lambda>(r, s). (ki_entry r ''KI05'', ki_entry r ''KI11'', raw_score s)))
       (pipeline Map.empty
          [(bare_txn ''A'' 43200000000000 ''P'' 1)
             \<lparr>country_cd := Some ''IR'', is_first_foreign_txn := Some True\<rparr>])
     = Inr [(Some 1, Some 1, 3.5)]"
proof -
  have "map_sum id (map raw_score)
     (compute_fraud_scores
        \<lparr>columns = [''KI05'', ''KI05_new_foreign_country_score''],
         rows = [\<lambda>name. if name = ''KI05'' then 1 else 36]\<rparr>
        [(''KI05'', 1.5)] ''minmax'' 0 20)
     = Inr [1.5]"
    by (simp add: compute_fraud_scores_def score_with_def weighted_sum_def df_get_def Let_def)
  moreover have "map_sum id (map (\<lambda>(r, s). (ki_entry r ''KI05'', ki_entry r ''KI11'', raw_score s)))
       (pipeline Map.empty
          [(bare_txn ''A'' 43200000000000 ''P'' 1)
             \<lparr>country_cd := Some ''IR'', is_first_foreign_txn := Some True\<rparr>])
     = Inr [(Some 1, Some 1, 3.5)]"
    unfolding pipeline_minmax by code_simp
  ultimately show ?thesis by (intro conjI)
qed

lemma compute_ki05_score_sets:
  "compute_ki05_score rt row =
     (\<Sum>c\<in>country_set (e_curr_foreign_countries row) - country_set (e_prev_foreign_countries row).
         get_or (map_of rt (strip c)) 0)
     * (if card (country_set (e_prev_foreign_countries row)) \<le> 2 then 1.2
        else if card (country_set (e_prev_foreign_countries row)) \<le> 5 then 1.0 else 0.5)"
proof -
  let ?P = "split_on CHR '','' (get_or (e_prev_foreign_countries row) [])"
  let ?C = "split_on CHR '','' (get_or (e_curr_foreign_countries row) [])"
  let ?new = "filter (\<lambda>c. c \<notin> set (remdups ?P)) (remdups ?C)"
  have d: "distinct ?new" by simp
  have s: "set ?new = set ?C - set ?P" by auto
  have "sum_list (map (\<lambda>c. get_or (map_of rt (strip c)) 0) ?new)
          = (\<Sum>c\<in>set ?C - set ?P. get_or (map_of rt (strip c)) 0)"
    using sum_list_distinct_conv_sum_set [OF d, of "\<lambda>c. get_or (map_of rt (strip c)) 0"]
    by (simp only: s)
  then show ?thesis
    by (simp add: compute_ki05_score_def country_set_def Let_def length_remdups_card_conv)
qed

text \<open>
  Claim C6. The code does not compute what the claim says when a history cell has white
  space after a comma. The set difference is taken on the fields as they are written
  and the weight is looked up on the stripped field, so with the prior history \<open>IR\<close>
  and the current history \<open>UK, IR\<close> the field \<open>" IR"\<close> counts as a new country: the
  sub-score is \<open>(5 + 30) * 1.2 = 42\<close>, where the claim's sum over the current countries
  that are not prior ones is \<open>5 * 1.2 = 6\<close>, the value the code gives for \<open>UK,IR\<close>.
  In the same way \<open>IR, IR\<close> counts one country twice, and a trailing comma in the
  prior history counts as one more prior country.
\<close>

theorem country_history_white_space:
  "compute_ki05_score country_risk
     (example_row\<lparr>e_prev_foreign_countries := Some ''IR'',
                   e_curr_foreign_countries := Some ''UK, IR''\<rparr>) = 42
   \<and> compute_ki05_score country_risk
     (example_row\<lparr>e_prev_foreign_countries := Some ''IR'',
                   e_curr_foreign_countries := Some ''UK,IR''\<rparr>) = 6
   \<and> compute_ki05_score country_risk
     (example_row\<lparr>e_prev_foreign_countries := Some ''UK'',
                   e_curr_foreign_countries := Some ''IR, IR''\<rparr>) = 72
   \<and> compute_ki05_score country_risk
     (example_row\<lparr>e_prev_foreign_countries := Some ''UK,USA,'',
                   e_curr_foreign_countries := Some ''IR''\<rparr>) = 30"
  by code_simp

section \<open>Properties of the indicator evaluation\<close>

lemma kis_list_lookup:
  fixes v1 :: "'a"
  defines "L \<equiv> \<lambda>v1 v2 v3 v4 v5 v6 v7 v8 v9 v10 v11 v12 v14 v18 v19.
     [(''KI01'', v1), (''KI02'', v2), (''KI03'', v3), (''KI04'', v4), (''KI05'', v5),
      (''KI06'', v6), (''KI07'', v7), (''KI08'', v8), (''KI09'', v9), (''KI10'', v10),
      (''KI11'', v11), (''KI12'', v12), (''KI14'', v14), (''KI18'', v18), (''KI19'', v19::'a)]"
  shows "map_of (L v1 v2 v3 v4 v5 v6 v7 v8 v9 v10 v11 v12 v14 v18 v19) ''KI02'' = Some v2"
    and "map_of (L v1 v2 v3 v4 v5 v6 v7 v8 v9 v10 v11 v12 v14 v18 v19) ''KI03'' = Some v3"
    and "map_of (L v1 v2 v3 v4 v5 v6 v7 v8 v9 v10 v11 v12 v14 v18 v19) ''KI04'' = Some v4"
    and "map_of (L v1 v2 v3 v4 v5 v6 v7 v8 v9 v10 v11 v12 v14 v18 v19) ''KI05'' = Some v5"
    and "map_of (L v1 v2 v3 v4 v5 v6 v7 v8 v9 v10 v11 v12 v14 v18 v19) ''KI06'' = Some v6"
    and "map_of (L v1 v2 v3 v4 v5 v6 v7 v8 v9 v10 v11 v12 v14 v18 v19) ''KI07'' = Some v7"
    and "map_of (L v1 v2 v3 v4 v5 v6 v7 v8 v9 v10 v11 v12 v14 v18 v19) ''KI08'' = Some v8"
    and "map_of (L v1 v2 v3 v4 v5 v6 v7 v8 v9 v10 v11 v12 v14 v18 v19) ''KI10'' = Some v10"
    and "map_of (L v1 v2 v3 v4 v5 v6 v7 v8 v9 v10 v11 v12 v14 v18 v19) ''KI11'' = Some v11"
    and "map_of (L v1 v2 v3 v4 v5 v6 v7 v8 v9 v10 v11 v12 v14 v18 v19) ''KI12'' = Some v12"
    and "map_of (L v1 v2 v3 v4 v5 v6 v7 v8 v9 v10 v11 v12 v14 v18 v19) ''KI14'' = Some v14"
    and "map_of (L v1 v2 v3 v4 v5 v6 v7 v8 v9 v10 v11 v12 v14 v18 v19) ''KI19'' = Some v19"
    and "map fst (L v1 v2 v3 v4 v5 v6 v7 v8 v9 v10 v11 v12 v14 v18 v19)
           = [''KI01'', ''KI02'', ''KI03'', ''KI04'', ''KI05'', ''KI06'', ''KI07'', ''KI08'',
              ''KI09'', ''KI10'', ''KI11'', ''KI12'', ''KI14'', ''KI18'', ''KI19'']"
  by (simp_all add: L_def)

lemma ki_weights_keys:
  "map fst ki_weights
     = [''KI01'', ''KI02'', ''KI03'', ''KI04'', ''KI05'', ''KI06'', ''KI07'', ''KI08'',
        ''KI09'', ''KI10'', ''KI11'', ''KI12'', ''KI14'', ''KI18'', ''KI19'']"
  by (simp add: ki_weights_def)

lemma evaluate_kis_keys:
  "map fst (evaluate_kis txn profile context) = map fst ki_weights"
  by (simp only: evaluate_kis_def Let_def kis_list_lookup ki_weights_keys)

lemma evaluate_kis_lookup:
  "map_of (evaluate_kis txn profile context) ''KI02''
     = Some (of_bool (get_or (activity_days_ago txn) 0 > 30))"
  "map_of (evaluate_kis txn profile context) ''KI03''
     = Some (of_bool (PARTY_KEY txn \<notin> parties_seen context
                      \<and> REQUESTED_AMOUNT_US_INTL txn > 10000))"
  "map_of (evaluate_kis txn profile context) ''KI04''
     = Some (of_bool (get_or (txn_sum_24h txn) 0 > 50000))"
  "map_of (evaluate_kis txn profile context) ''KI05''
     = Some (of_bool ((case country_cd txn of None \<Rightarrow> False
                       | Some c \<Rightarrow> c \<in> set [''IR'', ''RU'', ''NG'', ''CN''])
                      \<and> get_or (is_first_foreign_txn txn) False))"
  "map_of (evaluate_kis txn profile context) ''KI06''
     = Some (of_bool (get_or (acct_creation_days_ago txn) 100 \<le> 3
                      \<and> get_or (txn_count_24h txn) 0 > 3))"
  "map_of (evaluate_kis txn profile context) ''KI07''
     = Some (of_bool (get_or (unique_payees_24h txn) 0 > 3))"
  "map_of (evaluate_kis txn profile context) ''KI08''
     = Some (of_bool (get_or (acct_creation_days_ago txn) 100 \<le> 7
                      \<and> get_or (txn_count_24h txn) 0 > 2))"
  "map_of (evaluate_kis txn profile context) ''KI10''
     = Some (of_bool (get_or (payee_usage_count txn) 10 < 2
                      \<and> REQUESTED_AMOUNT_US_INTL txn > 5000))"
  "map_of (evaluate_kis txn profile context) ''KI11''
     = Some (of_bool (case country_cd txn of None \<Rightarrow> False
                      | Some c \<Rightarrow> c \<in> set [''IR'', ''RU'', ''NG'', ''CN'', ''KP'']))"
  "map_of (evaluate_kis txn profile context) ''KI12''
     = Some (of_bool (get_or (large_txns_2h txn) 0 > 2))"
  "map_of (evaluate_kis txn profile context) ''KI14''
     = Some (of_bool (get_or (is_known_name_new_account txn) False))"
  "map_of (evaluate_kis txn profile context) ''KI19''
     = Some (of_bool (REQUESTED_AMOUNT_US_INTL txn > 100000
                      \<and> \<not> get_or (approval_flag txn) True))"
  by (simp_all only: evaluate_kis_def Let_def kis_list_lookup)

lemma ebind_col_Inl:
  "(ebind (col c) f = Inl e) = (c = None \<and> e = KeyError \<or> (\<exists>v. c = Some v \<and> f v = Inl e))"
  by (cases c) (auto simp: ebind_def col_def)

lemma indicators_Inl:
  "(indicators rt row = Inl e) =
     (e = KeyError \<and>
      (e_REQUESTED_AMOUNT_US_INTL row = None \<or> e_account_mean_amt row = None
       \<or> e_account_std_amt row = None \<or> e_hour row = None \<or> e_is_new_party row = None
       \<or> e_txn_count_24h row = None \<or> e_acct_creation_days_ago row = None
       \<or> e_approval_flag row = None \<or> e_payee_usage_count row = None))"
  unfolding indicators_def Let_def ebind_col_Inl by auto

lemma raw_score_enh_indicator_columns:
  "\<exists>raw. raw_score_enh (map_of (indicator_columns a m s h p t score g f u)) ki_weights_enh
           = Inr raw"
proof -
  have "\<forall>(ki, weight)\<in>set ki_weights_enh.
          map_of (indicator_columns a m s h p t score g f u) ki \<noteq> None"
    using indicator_columns_lookup(3) [of a m s h p t score g f u] by fastforce
  then show ?thesis
    by (simp add: raw_score_enh_def add_weighted_sum ebind_def col_def
        indicator_columns_lookup(1))
qed

lemma enhanced_scorecard_Inl:
  "(enhanced_scorecard rt ki_weights_enh row = Inl e) = (indicators rt row = Inl e)"
proof (cases "indicators rt row")
  case (Inl e')
  then show ?thesis by (simp add: enhanced_scorecard_def ebind_def)
next
  case (Inr kis)
  from indicators_Inr [OF Inr] obtain a m s h p t g f u
    where "kis = indicator_columns a m s h p t (compute_ki05_score rt row) g f u"
    by blast
  with raw_score_enh_indicator_columns obtain raw
    where "raw_score_enh (map_of kis) ki_weights_enh = Inr raw"
    by blast
  with Inr show ?thesis
    by (simp add: enhanced_scorecard_def ebind_def Let_def)
qed

text \<open>
  Claim C9, as amended. In the pipeline every upstream field is read with
  \<open>txn.get(name, default)\<close>: the evaluation of a row always gives the fifteen
  indicators of the catalog, and an indicator that reads an absent field is 0. The
  enhanced scorecard indexes its columns with \<open>df[name]\<close>: with the script's catalog it
  raises \<open>KeyError\<close> exactly when one of the nine columns it indexes is absent; only the
  two country histories have a default, the empty string.
\<close>

theorem missing_field_defaults:
  "map fst (evaluate_kis txn profile context) = map fst ki_weights
   \<and> (activity_days_ago txn = None
        \<longrightarrow> map_of (evaluate_kis txn profile context) ''KI02'' = Some 0)
   \<and> (txn_sum_24h txn = None
        \<longrightarrow> map_of (evaluate_kis txn profile context) ''KI04'' = Some 0)
   \<and> (country_cd txn = None
        \<longrightarrow> map_of (evaluate_kis txn profile context) ''KI05'' = Some 0
          \<and> map_of (evaluate_kis txn profile context) ''KI11'' = Some 0)
   \<and> (is_first_foreign_txn txn = None
        \<longrightarrow> map_of (evaluate_kis txn profile context) ''KI05'' = Some 0)
   \<and> (acct_creation_days_ago txn = None
        \<longrightarrow> map_of (evaluate_kis txn profile context) ''KI06'' = Some 0
          \<and> map_of (evaluate_kis txn profile context) ''KI08'' = Some 0)
   \<and> (txn_count_24h txn = None
        \<longrightarrow> map_of (evaluate_kis txn profile context) ''KI06'' = Some 0
          \<and> map_of (evaluate_kis txn profile context) ''KI08'' = Some 0)
   \<and> (unique_payees_24h txn = None
        \<longrightarrow> map_of (evaluate_kis txn profile context) ''KI07'' = Some 0)
   \<and> (payee_usage_count txn = None
        \<longrightarrow> map_of (evaluate_kis txn profile context) ''KI10'' = Some 0)
   \<and> (large_txns_2h txn = None
        \<longrightarrow> map_of (evaluate_kis txn profile context) ''KI12'' = Some 0)
   \<and> (is_known_name_new_account txn = None
        \<longrightarrow> map_of (evaluate_kis txn profile context) ''KI14'' = Some 0)
   \<and> (approval_flag txn = None
        \<longrightarrow> map_of (evaluate_kis txn profile context) ''KI19'' = Some 0)
   \<and> (enhanced_scorecard rt ki_weights_enh row = Inl KeyError)
       = (e_REQUESTED_AMOUNT_US_INTL row = None \<or> e_account_mean_amt row = None
          \<or> e_account_std_amt row = None \<or> e_hour row = None \<or> e_is_new_party row = None
          \<or> e_txn_count_24h row = None \<or> e_acct_creation_days_ago row = None
          \<or> e_approval_flag row = None \<or> e_payee_usage_count row = None)"
proof (intro conjI impI)
  show "map fst (evaluate_kis txn profile context) = map fst ki_weights"
    by (rule evaluate_kis_keys)
  show "map_of (evaluate_kis txn profile context) ''KI02'' = Some 0"
    if "activity_days_ago txn = None"
    using that by (simp add: evaluate_kis_lookup(1) get_or_def)
  show "map_of (evaluate_kis txn profile context) ''KI04'' = Some 0"
    if "txn_sum_24h txn = None"
    using that by (simp add: evaluate_kis_lookup(3) get_or_def)
  show "map_of (evaluate_kis txn profile context) ''KI05'' = Some 0"
    if "country_cd txn = None"
    using that by (simp add: evaluate_kis_lookup(4))
  show "map_of (evaluate_kis txn profile context) ''KI11'' = Some 0"
    if "country_cd txn = None"
    using that by (simp add: evaluate_kis_lookup(9))
  show "map_of (evaluate_kis txn profile context) ''KI05'' = Some 0"
    if "is_first_foreign_txn txn = None"
    using that by (simp add: evaluate_kis_lookup(4) get_or_def)
  show "map_of (evaluate_kis txn profile context) ''KI06'' = Some 0"
    if "acct_creation_days_ago txn = None"
    using that by (simp add: evaluate_kis_lookup(5) get_or_def)
  show "map_of (evaluate_kis txn profile context) ''KI08'' = Some 0"
    if "acct_creation_days_ago txn = None"
    using that by (simp add: evaluate_kis_lookup(7) get_or_def)
  show "map_of (evaluate_kis txn profile context) ''KI06'' = Some 0"
    if "txn_count_24h txn = None"
    using that by (simp add: evaluate_kis_lookup(5) get_or_def)
  show "map_of (evaluate_kis txn profile context) ''KI08'' = Some 0"
    if "txn_count_24h txn = None"
    using that by (simp add: evaluate_kis_lookup(7) get_or_def)
  show "map_of (evaluate_kis txn profile context) ''KI07'' = Some 0"
    if "unique_payees_24h txn = None"
    using that by (simp add: evaluate_kis_lookup(6) get_or_def)
  show "map_of (evaluate_kis txn profile context) ''KI10'' = Some 0"
    if "payee_usage_count txn = None"
    using that by (simp add: evaluate_kis_lookup(8) get_or_def)
  show "map_of (evaluate_kis txn profile context) ''KI12'' = Some 0"
    if "large_txns_2h txn = None"
    using that by (simp add: evaluate_kis_lookup(10) get_or_def)
  show "map_of (evaluate_kis txn profile context) ''KI14'' = Some 0"
    if "is_known_name_new_account txn = None"
    using that by (simp add: evaluate_kis_lookup(11) get_or_def)
  show "map_of (evaluate_kis txn profile context) ''KI19'' = Some 0"
    if "approval_flag txn = None"
    using that by (simp add: evaluate_kis_lookup(12) get_or_def)
  show "(enhanced_scorecard rt ki_weights_enh row = Inl KeyError)
       = (e_REQUESTED_AMOUNT_US_INTL row = None \<or> e_account_mean_amt row = None
          \<or> e_account_std_amt row = None \<or> e_hour row = None \<or> e_is_new_party row = None
          \<or> e_txn_count_24h row = None \<or> e_acct_creation_days_ago row = None
          \<or> e_approval_flag row = None \<or> e_payee_usage_count row = None)"
    by (simp add: enhanced_scorecard_Inl indicators_Inl)
qed

theorem missing_field_defaults_witness:
  "activity_days_ago (bare_txn ''A'' 0 ''P'' 200000) = None
   \<and> approval_flag (bare_txn ''A'' 0 ''P'' 200000) = None
   \<and> map snd
        (evaluate_kis (bare_txn ''A'' 0 ''P'' 200000)
           \<lparr>mean_amt = 200000, std_amt = 1, typical_currency = ''USD''\<rparr>
           \<lparr>last_txn_time = 0, parties_seen = {''P''}, txn_times = [0]\<rparr>)
      = [0, 0, 0, 0, 0, 0, 0, 0, 0, 0, 0, 0, 0, 1, 0]
   \<and> map_of
        (evaluate_kis (bare_txn ''A'' 0 ''P'' 200000)
           \<lparr>mean_amt = 200000, std_amt = 1, typical_currency = ''USD''\<rparr>
           \<lparr>last_txn_time = 0, parties_seen = {''P''}, txn_times = [0]\<rparr>) ''KI19'' = Some 0
   \<and> e_txn_count_24h (example_row\<lparr>e_txn_count_24h := None\<rparr>) = None
   \<and> enhanced_scorecard country_risk ki_weights_enh (example_row\<lparr>e_txn_count_24h := None\<rparr>)
       = Inl KeyError"
proof -
  have v: "map snd
        (evaluate_kis (bare_txn ''A'' 0 ''P'' 200000)
           \<lparr>mean_amt = 200000, std_amt = 1, typical_currency = ''USD''\<rparr>
           \<lparr>last_txn_time = 0, parties_seen = {''P''}, txn_times = [0]\<rparr>)
      = [0, 0, 0, 0, 0, 0, 0, 0, 0, 0, 0, 0, 0, 1, 0]"
    by code_simp
  have n: "activity_days_ago (bare_txn ''A'' 0 ''P'' 200000) = None"
    "approval_flag (bare_txn ''A'' 0 ''P'' 200000) = None"
    "e_txn_count_24h (example_row\<lparr>e_txn_count_24h := None\<rparr>) = None"
    by (simp_all add: bare_txn_def)
  from missing_field_defaults [of "bare_txn ''A'' 0 ''P'' 200000"
      "\<lparr>mean_amt = 200000, std_amt = 1, typical_currency = ''USD''\<rparr>"
      "\<lparr>last_txn_time = 0, parties_seen = {''P''}, txn_times = [0]\<rparr>"
      country_risk "example_row\<lparr>e_txn_count_24h := None\<rparr>"] v n
  show ?thesis by simp
qed

text \<open>
  Claim C9 as stated fails in the enhanced scorecard: a sheet without the column
  \<open>txn_count_24h\<close> raises \<open>KeyError\<close>; and the absence of the prior country history
  alone turns the country sub-score of a row from 0 into 36, so that its companion
  indicator is 1.
\<close>

theorem scorecard_missing_column_counterexample:
  "enhanced_scorecard country_risk ki_weights_enh (example_row\<lparr>e_txn_count_24h := None\<rparr>)
     = Inl KeyError
   \<and> compute_ki05_score country_risk
       (example_row\<lparr>e_prev_foreign_countries := Some ''IR'',
                     e_curr_foreign_countries := Some ''IR''\<rparr>) = 0
   \<and> compute_ki05_score country_risk
       (example_row\<lparr>e_prev_foreign_countries := None,
                     e_curr_foreign_countries := Some ''IR''\<rparr>) = 36"
  by code_simp

section \<open>Properties of the transaction loop\<close>

lemma process_txn_snd:
  "snd (process_txn P ctx t) =
     \<lparr>res_ACCOUNT_KEY = ACCOUNT_KEY t, res_PARTY_KEY = PARTY_KEY t,
      res_REQUESTED_AMOUNT_US_INTL = REQUESTED_AMOUNT_US_INTL t,
      res_TRANSACTION_LOCAL_DATE_TIME = TRANSACTION_LOCAL_DATE_TIME t,
      res_kis = evaluate_kis t
        (get_or (P (ACCOUNT_KEY t))
           \<lparr>mean_amt = 0, std_amt = 1, typical_currency = CURRENCY_CD t\<rparr>)
        (get_or (ctx (ACCOUNT_KEY t))
           \<lparr>last_txn_time = TRANSACTION_LOCAL_DATE_TIME t - timedelta_hours 2,
            parties_seen = {}, txn_times = []\<rparr>)\<rparr>"
  by (simp add: process_txn_def Let_def)

lemma process_txn_ki03:
  "ki_entry (snd (process_txn P ctx t)) ''KI03''
     = Some (of_bool (PARTY_KEY t \<notin> seen ctx (ACCOUNT_KEY t)
                      \<and> REQUESTED_AMOUNT_US_INTL t > 10000))"
  by (cases "ctx (ACCOUNT_KEY t)")
     (simp_all add: process_txn_snd ki_entry_def evaluate_kis_lookup(2) seen_def get_or_def)

lemma process_txn_seen:
  "seen (fst (process_txn P ctx t)) a
     = (if a = ACCOUNT_KEY t then insert (PARTY_KEY t) (seen ctx a) else seen ctx a)"
  by (cases "ctx (ACCOUNT_KEY t)") (simp_all add: process_txn_def Let_def seen_def get_or_def)

lemma process_txn_times:
  "times_of (fst (process_txn P ctx t)) a
     = (if a = ACCOUNT_KEY t then times_of ctx a @ [TRANSACTION_LOCAL_DATE_TIME t]
        else times_of ctx a)"
  by (cases "ctx (ACCOUNT_KEY t)") (simp_all add: process_txn_def Let_def times_of_def get_or_def)

lemma loop_Cons:
  "transaction_loop P ctx (t # ts) =
     (fst (transaction_loop P (fst (process_txn P ctx t)) ts),
      snd (process_txn P ctx t) # snd (transaction_loop P (fst (process_txn P ctx t)) ts))"
  by (simp add: split_def Let_def)

lemma loop_length: "length (snd (transaction_loop P ctx ts)) = length ts"
  by (induction ts arbitrary: ctx) (simp_all add: loop_Cons del: transaction_loop.simps(2))

lemma loop_seen:
  "seen (fst (transaction_loop P ctx ts)) a
     = seen ctx a \<union> PARTY_KEY ` {t \<in> set ts. ACCOUNT_KEY t = a}"
  by (induction ts arbitrary: ctx)
     (auto simp: loop_Cons process_txn_seen simp del: transaction_loop.simps(2))

lemma loop_times:
  "times_of (fst (transaction_loop P ctx ts)) a
     = times_of ctx a @ map TRANSACTION_LOCAL_DATE_TIME (filter (\<lambda>t. ACCOUNT_KEY t = a) ts)"
  by (induction ts arbitrary: ctx)
     (simp_all add: loop_Cons process_txn_times del: transaction_loop.simps(2))

lemma loop_nth:
  "i < length ts \<Longrightarrow>
     snd (transaction_loop P ctx ts) ! i
       = snd (process_txn P (fst (transaction_loop P ctx (take i ts))) (ts ! i))"
proof (induction ts arbitrary: ctx i)
  case Nil
  then show ?case by simp
next
  case (Cons t ts)
  show ?case
  proof (cases i)
    case 0
    then show ?thesis by (simp add: loop_Cons del: transaction_loop.simps(2))
  next
    case (Suc k)
    with Cons.prems have "k < length ts" by simp
    from Cons.IH [OF this] Suc show ?thesis
      by (simp add: loop_Cons del: transaction_loop.simps(2))
  qed
qed

lemma loop_rows:
  "map (\<lambda>r. (res_ACCOUNT_KEY r, res_PARTY_KEY r, res_REQUESTED_AMOUNT_US_INTL r,
             res_TRANSACTION_LOCAL_DATE_TIME r)) (snd (transaction_loop P ctx ts))
     = map (\<lambda>t. (ACCOUNT_KEY t, PARTY_KEY t, REQUESTED_AMOUNT_US_INTL t,
                 TRANSACTION_LOCAL_DATE_TIME t)) ts"
  by (induction ts arbitrary: ctx)
     (simp_all add: loop_Cons process_txn_snd del: transaction_loop.simps(2))

lemma seen_empty: "seen Map.empty a = {}"
  by (simp add: seen_def)

lemma times_of_empty: "times_of Map.empty a = []"
  by (simp add: times_of_def)

text \<open>
  Claim C5. In the loop, a row whose party has not occurred in an earlier row of the same
  account and whose amount is above 10000 gets \<open>KI03 = 1\<close>, and a later row of the same
  account with the same party and amount gets \<open>KI03 = 0\<close>: the party is not in the
  context of the account when the row is evaluated and is in it right after, and the
  context of an account gets one update for each of its rows. The statement holds for
  the rows in the order the loop visits them, which in the script is the sorted frame.
\<close>

theorem new_payee_indicator:
  assumes "i < j" and "j < length df"
    and "\<forall>k<i. ACCOUNT_KEY (df ! k) = ACCOUNT_KEY (df ! i)
               \<longrightarrow> PARTY_KEY (df ! k) \<noteq> PARTY_KEY (df ! i)"
    and "REQUESTED_AMOUNT_US_INTL (df ! i) > 10000"
    and "ACCOUNT_KEY (df ! j) = ACCOUNT_KEY (df ! i)"
    and "PARTY_KEY (df ! j) = PARTY_KEY (df ! i)"
    and "REQUESTED_AMOUNT_US_INTL (df ! j) = REQUESTED_AMOUNT_US_INTL (df ! i)"
  shows "ki_entry (snd (transaction_loop P Map.empty df) ! i) ''KI03'' = Some 1
       \<and> ki_entry (snd (transaction_loop P Map.empty df) ! j) ''KI03'' = Some 0
       \<and> PARTY_KEY (df ! i)
           \<notin> seen (fst (transaction_loop P Map.empty (take i df))) (ACCOUNT_KEY (df ! i))
       \<and> PARTY_KEY (df ! i)
           \<in> seen (fst (transaction_loop P Map.empty (take (Suc i) df))) (ACCOUNT_KEY (df ! i))
       \<and> times_of (fst (transaction_loop P Map.empty df)) a
           = map TRANSACTION_LOCAL_DATE_TIME (filter (\<lambda>t. ACCOUNT_KEY t = a) df)"
proof -
  from assms(1,2) have i: "i < length df" by simp
  have before: "PARTY_KEY (df ! i)
      \<notin> seen (fst (transaction_loop P Map.empty (take i df))) (ACCOUNT_KEY (df ! i))"
  proof
    assume "PARTY_KEY (df ! i)
      \<in> seen (fst (transaction_loop P Map.empty (take i df))) (ACCOUNT_KEY (df ! i))"
    then obtain t where t: "t \<in> set (take i df)" "ACCOUNT_KEY t = ACCOUNT_KEY (df ! i)"
      "PARTY_KEY t = PARTY_KEY (df ! i)"
      by (auto simp: loop_seen seen_empty)
    from t(1) obtain k where "k < length (take i df)" "take i df ! k = t"
      by (auto simp: in_set_conv_nth)
    with i have "k < i" "df ! k = t" by simp_all
    with assms(3) t(2,3) show False by blast
  qed
  have after: "PARTY_KEY (df ! i)
      \<in> seen (fst (transaction_loop P Map.empty (take (Suc i) df))) (ACCOUNT_KEY (df ! i))"
  proof -
    from i have "df ! i \<in> set (take (Suc i) df)"
      by (simp add: take_Suc_conv_app_nth)
    then show ?thesis
      by (auto simp: loop_seen seen_empty)
  qed
  have later: "PARTY_KEY (df ! j)
      \<in> seen (fst (transaction_loop P Map.empty (take j df))) (ACCOUNT_KEY (df ! j))"
  proof -
    from assms(1,2) have "take j df ! i = df ! i" "i < length (take j df)"
      by simp_all
    then have "df ! i \<in> set (take j df)"
      by (metis nth_mem)
    with assms(5,6) show ?thesis
      by (auto simp: loop_seen seen_empty)
  qed
  have 1: "ki_entry (snd (transaction_loop P Map.empty df) ! i) ''KI03'' = Some 1"
    using before assms(4) by (simp add: loop_nth [OF i] process_txn_ki03)
  have 2: "ki_entry (snd (transaction_loop P Map.empty df) ! j) ''KI03'' = Some 0"
    using later by (simp add: loop_nth [OF assms(2)] process_txn_ki03)
  have 3: "times_of (fst (transaction_loop P Map.empty df)) a
           = map TRANSACTION_LOCAL_DATE_TIME (filter (\<lambda>t. ACCOUNT_KEY t = a) df)"
    by (simp add: loop_times times_of_empty)
  from 1 2 before after 3 show ?thesis by (intro conjI)
qed

theorem new_payee_indicator_witness:
  "map (\<lambda>r. ki_entry r ''KI03'')
     (snd (transaction_loop Map.empty Map.empty
        [bare_txn ''A'' 100 ''Q'' 20000, bare_txn ''A'' 200 ''P'' 20000,
         bare_txn ''A'' 300 ''P'' 20000]))
     = [Some 1, Some 1, Some 0]
   \<and> ki_entry (snd (transaction_loop Map.empty Map.empty
        [bare_txn ''A'' 100 ''Q'' 20000, bare_txn ''A'' 200 ''P'' 20000,
         bare_txn ''A'' 300 ''P'' 20000]) ! 1) ''KI03'' = Some 1
   \<and> ki_entry (snd (transaction_loop Map.empty Map.empty
        [bare_txn ''A'' 100 ''Q'' 20000, bare_txn ''A'' 200 ''P'' 20000,
         bare_txn ''A'' 300 ''P'' 20000]) ! 2) ''KI03'' = Some 0
   \<and> times_of (fst (transaction_loop Map.empty Map.empty
        [bare_txn ''A'' 100 ''Q'' 20000, bare_txn ''A'' 200 ''P'' 20000,
         bare_txn ''A'' 300 ''P'' 20000])) ''A'' = [100, 200, 300]"
proof -
  let ?df = "[bare_txn ''A'' 100 ''Q'' 20000, bare_txn ''A'' 200 ''P'' 20000,
              bare_txn ''A'' 300 ''P'' 20000]"
  have h: "(1::nat) < 2" "2 < length ?df"
    "\<forall>k<1. ACCOUNT_KEY (?df ! k) = ACCOUNT_KEY (?df ! 1)
               \<longrightarrow> PARTY_KEY (?df ! k) \<noteq> PARTY_KEY (?df ! 1)"
    "REQUESTED_AMOUNT_US_INTL (?df ! 1) > 10000"
    "ACCOUNT_KEY (?df ! 2) = ACCOUNT_KEY (?df ! 1)"
    "PARTY_KEY (?df ! 2) = PARTY_KEY (?df ! 1)"
    "REQUESTED_AMOUNT_US_INTL (?df ! 2) = REQUESTED_AMOUNT_US_INTL (?df ! 1)"
    by (simp_all add: bare_txn_def)
  have all: "map (\<lambda>r. ki_entry r ''KI03'') (snd (transaction_loop Map.empty Map.empty ?df))
     = [Some 1, Some 1, Some 0]"
    by code_simp
  have t: "map TRANSACTION_LOCAL_DATE_TIME (filter (\<lambda>t. ACCOUNT_KEY t = ''A'') ?df)
     = [100, 200, 300]"
    by (simp add: bare_txn_def)
  from new_payee_indicator [OF h, of Map.empty "''A''"] all t show ?thesis
    by simp
qed

lemma map_first_of_zip:
  "length ys = length xs \<Longrightarrow> map (\<lambda>(r, s). f r) (zip xs ys) = map f xs"
proof (induction xs arbitrary: ys)
  case Nil
  then show ?case by simp
next
  case (Cons x xs)
  then show ?case by (cases ys) simp_all
qed

lemma sorted_account_times:
  assumes "sorted (map (\<lambda>t. (ACCOUNT_KEY t, TRANSACTION_LOCAL_DATE_TIME t)) S)"
  shows "sorted (map TRANSACTION_LOCAL_DATE_TIME (filter (\<lambda>t. ACCOUNT_KEY t = a) S))"
proof -
  let ?key = "\<lambda>t. (ACCOUNT_KEY t, TRANSACTION_LOCAL_DATE_TIME t)"
  from assms have "sorted_wrt (\<lambda>x y. ?key x \<le> ?key y) S"
    by (simp add: sorted_map)
  then have "sorted_wrt (\<lambda>x y. ?key x \<le> ?key y) (filter (\<lambda>t. ACCOUNT_KEY t = a) S)"
    by (rule sorted_wrt_filter)
  then have "sorted_wrt (\<lambda>x y. TRANSACTION_LOCAL_DATE_TIME x \<le> TRANSACTION_LOCAL_DATE_TIME y)
               (filter (\<lambda>t. ACCOUNT_KEY t = a) S)"
    by (rule sorted_wrt_mono_rel [rotated]) auto
  then show ?thesis
    by (simp add: sorted_map)
qed

text \<open>
  Claim C7, as amended. The script sorts the frame by account and timestamp before the
  loop and rejects nothing: it never raises, the output has one scored row for each
  input row, in the order of the sorted frame, which is a permutation of the input
  sorted by account and timestamp; so the loop sees the rows of each account in
  non-decreasing timestamp order, whatever the order of the sheet.
\<close>

theorem sorted_before_scoring:
  "\<exists>out. pipeline P df = Inr out
     \<and> length out = length df
     \<and> map (\<lambda>(r, s). (res_ACCOUNT_KEY r, res_PARTY_KEY r, res_REQUESTED_AMOUNT_US_INTL r,
                      res_TRANSACTION_LOCAL_DATE_TIME r)) out
         = map (\<lambda>t. (ACCOUNT_KEY t, PARTY_KEY t, REQUESTED_AMOUNT_US_INTL t,
                     TRANSACTION_LOCAL_DATE_TIME t)) (sort_values df)
     \<and> mset (sort_values df) = mset df
     \<and> sorted (map (\<lambda>t. (ACCOUNT_KEY t, TRANSACTION_LOCAL_DATE_TIME t)) (sort_values df))
     \<and> sorted (times_of (fst (transaction_loop P Map.empty (sort_values df))) a)"
proof -
  let ?S = "sort_values df"
  let ?results = "snd (transaction_loop P Map.empty ?S)"
  let ?scores = "map (score_with (\<lambda>raw. minmax_norm raw 0 20) (columns (results_df ?results))
                        ki_weights) (rows (results_df ?results))"
  have run: "pipeline P df = Inr (zip ?results ?scores)"
    by (simp add: pipeline_minmax Let_def)
  have len: "length ?scores = length ?results"
    by (simp add: results_df_def)
  have "length ?results = length df"
    by (simp add: loop_length sort_values_def)
  with len have n: "length (zip ?results ?scores) = length df"
    by (simp only: length_zip min.idem)
  have rows: "map (\<lambda>(r, s). (res_ACCOUNT_KEY r, res_PARTY_KEY r,
        res_REQUESTED_AMOUNT_US_INTL r, res_TRANSACTION_LOCAL_DATE_TIME r)) (zip ?results ?scores)
      = map (\<lambda>t. (ACCOUNT_KEY t, PARTY_KEY t, REQUESTED_AMOUNT_US_INTL t,
                     TRANSACTION_LOCAL_DATE_TIME t)) ?S"
    by (simp only: map_first_of_zip [OF len] loop_rows)
  have perm: "mset ?S = mset df"
    by (simp add: sort_values_def)
  have srt: "sorted (map (\<lambda>t. (ACCOUNT_KEY t, TRANSACTION_LOCAL_DATE_TIME t)) ?S)"
    by (simp add: sort_values_def)
  have "sorted (times_of (fst (transaction_loop P Map.empty ?S)) a)"
    using sorted_account_times [OF srt] by (simp add: loop_times times_of_empty)
  with run n rows perm srt show ?thesis by blast
qed

text \<open>
  Claim C7 as stated fails: in a sheet whose second row of account \<open>A\<close> is earlier than
  its first, no row is rejected. Both rows are scored, the earlier one first.
\<close>

theorem out_of_order_scored_counterexample:
  "map_sum id (map (\<lambda>(r, s). (res_TRANSACTION_LOCAL_DATE_TIME r, res_PARTY_KEY r, raw_score s,
          normalized_score s, risk_band s)))
        (pipeline Map.empty [bare_txn ''A'' 200 ''P'' 20000, bare_txn ''A'' 100 ''Q'' 20000])
   = Inr [(100, ''Q'', 5, Fin 25, Low_Risk), (200, ''P'', 5, Fin 25, Low_Risk)]"
  unfolding pipeline_minmax by code_simp

end
